theory Spec2Isabelle
  imports Complex_Main "HOL-Library.Word"
begin

section \<open>JavaScript strings\<close>

text \<open>
  A JavaScript string is a sequence of UTF-16 code units.  String literals of the
  source are ASCII and are written through \<open>ascii\<close>.
\<close>

type_synonym jschar = "16 word"
type_synonym jsstring = "jschar list"

definition ascii :: "string \<Rightarrow> jsstring" where
  "ascii s = map (\<lambda>c. of_nat (of_char c)) s"

text \<open>
  The code units matched by the regular expression class \<open>\s\<close> and stripped by
  \<open>String.prototype.trim\<close> (ECMAScript WhiteSpace and LineTerminator): TAB, LF, VT, FF,
  CR, SPACE, NBSP, U+1680, U+2000 to U+200A, U+2028, U+2029, U+202F, U+205F, U+3000 and
  U+FEFF.
\<close>

definition is_ws :: "jschar \<Rightarrow> bool" where
  "is_ws c \<longleftrightarrow>
     c = 0x9 \<or> c = 0xA \<or> c = 0xB \<or> c = 0xC \<or> c = 0xD \<or> c = 0x20 \<or> c = 0xA0 \<or>
     c = 0x1680 \<or> (0x2000 \<le> c \<and> c \<le> 0x200A) \<or> c = 0x2028 \<or> c = 0x2029 \<or>
     c = 0x202F \<or> c = 0x205F \<or> c = 0x3000 \<or> c = 0xFEFF"

abbreviation non_ws :: "jschar \<Rightarrow> bool" where
  "non_ws c \<equiv> \<not> is_ws c"

text \<open>\<open>s.trim()\<close>: strip the white space at both ends.\<close>

definition js_trim :: "jsstring \<Rightarrow> jsstring" where
  "js_trim s = rev (dropWhile is_ws (rev (dropWhile is_ws s)))"

text \<open>
  \<open>s.split(/\s+/)\<close>.  The splitter walks the string; \<open>acc\<close> is the piece begun at the
  end of the last separator.  A separator is a maximal run of white space (the \<open>+\<close> is
  greedy), it closes the current piece, also an empty one, and the end of the string
  closes the last piece.  The empty string gives the one piece \<open>""\<close>.
\<close>

function split_loop :: "jsstring \<Rightarrow> jsstring \<Rightarrow> jsstring list" where
  "split_loop acc [] = [acc]"
| "split_loop acc (c # cs) =
     (if is_ws c then acc # split_loop [] (dropWhile is_ws cs)
      else split_loop (acc @ [c]) cs)"
  by pat_completeness auto
termination
  by (relation "measure (\<lambda>(acc, s). length s)")
     (auto simp: length_dropWhile_le less_Suc_eq_le)

definition js_split_ws :: "jsstring \<Rightarrow> jsstring list" where
  "js_split_ws s = split_loop [] s"

text \<open>
  The white-space separated tokens of a string, as the specification speaks of them:
  its maximal runs of characters that are not white space.
\<close>

function ws_tokens :: "jsstring \<Rightarrow> jsstring list" where
  "ws_tokens [] = []"
| "ws_tokens (c # cs) =
     (if is_ws c then ws_tokens cs
      else (c # takeWhile non_ws cs) # ws_tokens (dropWhile non_ws cs))"
  by pat_completeness auto
termination
  by (relation "measure length")
     (auto simp: length_dropWhile_le less_Suc_eq_le)

section \<open>The data model (types.ts)\<close>

record TransferState =
  destinationCountry :: "jsstring option"
  amount :: "jsstring option"
  beneficiaryName :: "jsstring option"
  deliveryMethod :: "jsstring option"
  isComplete :: bool

record PromoData =
  imageUrl :: jsstring
  title :: jsstring
  description :: jsstring
  buttonText :: jsstring
  link :: jsstring
  footer :: jsstring

datatype Role = User | Agent

text \<open>A \<open>Date\<close> is its time value, the milliseconds since the epoch.\<close>

record Message =
  id_m :: jsstring
  role :: Role
  content :: jsstring
  timestamp :: nat
  promo_m :: "PromoData option"

section \<open>The state panel (StatePanel.tsx)\<close>

record Step =
  key :: jsstring
  label :: jsstring
  stepvalue :: "jsstring option"

definition steps :: "TransferState \<Rightarrow> Step list" where
  "steps state =
     [\<lparr>key = ascii ''destinationCountry'', label = ascii ''Destination'',
        stepvalue = destinationCountry state\<rparr>,
      \<lparr>key = ascii ''amount'', label = ascii ''Amount'', stepvalue = amount state\<rparr>,
      \<lparr>key = ascii ''beneficiaryName'', label = ascii ''Beneficiary'',
        stepvalue = beneficiaryName state\<rparr>,
      \<lparr>key = ascii ''deliveryMethod'', label = ascii ''Method'',
        stepvalue = deliveryMethod state\<rparr>]"

text \<open>The warning test of the beneficiary name: fewer than two pieces after trimming.\<close>

definition isWarning :: "jsstring \<Rightarrow> bool" where
  "isWarning v \<longleftrightarrow> length (js_split_ws (js_trim v)) < 2"

text \<open>The predicate given to \<open>steps.filter\<close>.\<close>

definition step_done :: "Step \<Rightarrow> bool" where
  "step_done step =
     (case stepvalue step of
        None \<Rightarrow> False
      | Some v \<Rightarrow> if key step = ascii ''beneficiaryName'' then \<not> isWarning v else True)"

definition completedStepsCount :: "TransferState \<Rightarrow> nat" where
  "completedStepsCount state = length (filter step_done (steps state))"

definition percentage :: "TransferState \<Rightarrow> rat" where
  "percentage state =
     (of_nat (completedStepsCount state) / of_nat (length (steps state))) * 100"

section \<open>JavaScript values at the HTTP boundary\<close>

text \<open>
  The route handlers read request and response bodies that TypeScript types as
  \<open>any\<close>: whatever \<open>JSON.parse\<close> returns.  A number is the bit pattern of its IEEE 754
  double.  An object is the list of its members, each name once.  \<open>JUndefined\<close> is what
  reading a missing property gives.
\<close>

datatype jsval =
    JUndefined
  | JNull
  | JBool bool
  | JNum "64 word"
  | JStr jsstring
  | JArr "jsval list"
  | JObj "(jsstring \<times> jsval) list"

datatype js_error = TypeError | SyntaxError | RangeError | Error jsstring

text \<open>A double is zero when all bits but the sign are clear, and NaN when the exponent
  bits are all set and the fraction is not zero.\<close>

definition num_is_zero :: "64 word \<Rightarrow> bool" where
  "num_is_zero w \<longleftrightarrow> and w 0x7FFFFFFFFFFFFFFF = 0"

definition num_is_nan :: "64 word \<Rightarrow> bool" where
  "num_is_nan w \<longleftrightarrow>
     and w 0x7FF0000000000000 = 0x7FF0000000000000 \<and> and w 0x000FFFFFFFFFFFFF \<noteq> 0"

text \<open>ToBoolean: what \<open>!v\<close>, \<open>v || w\<close> and \<open>if (v)\<close> test.\<close>

fun truthy :: "jsval \<Rightarrow> bool" where
  "truthy JUndefined = False"
| "truthy JNull = False"
| "truthy (JBool b) = b"
| "truthy (JNum w) = (\<not> num_is_zero w \<and> \<not> num_is_nan w)"
| "truthy (JStr s) = (s \<noteq> [])"
| "truthy (JArr xs) = True"
| "truthy (JObj kvs) = True"

fun typeof :: "jsval \<Rightarrow> jsstring" where
  "typeof JUndefined = ascii ''undefined''"
| "typeof JNull = ascii ''object''"
| "typeof (JBool b) = ascii ''boolean''"
| "typeof (JNum w) = ascii ''number''"
| "typeof (JStr s) = ascii ''string''"
| "typeof (JArr xs) = ascii ''object''"
| "typeof (JObj kvs) = ascii ''object''"

text \<open>
  Reading a property \<open>v.k\<close>, for the names the handlers read (\<open>userMessage\<close>,
  \<open>currentState\<close>, \<open>messageHistory\<close>, \<open>sessionId\<close>, \<open>timestamp\<close>, \<open>detail\<close>), none of which
  a prototype defines: on \<open>null\<close> and \<open>undefined\<close> it throws a TypeError, on an object it
  is the member or \<open>undefined\<close>, on any other value \<open>undefined\<close>.  Destructuring
  \<open>const { a, b } = v\<close> reads the properties in the same way.
\<close>

fun get_prop :: "jsval \<Rightarrow> jsstring \<Rightarrow> js_error + jsval" where
  "get_prop JUndefined k = Inl TypeError"
| "get_prop JNull k = Inl TypeError"
| "get_prop (JObj kvs) k = Inr (case map_of kvs k of None \<Rightarrow> JUndefined | Some v \<Rightarrow> v)"
| "get_prop v k = Inr JUndefined"

text \<open>Optional chaining \<open>v?.k\<close>.\<close>

fun get_prop_opt :: "jsval \<Rightarrow> jsstring \<Rightarrow> jsval" where
  "get_prop_opt (JObj kvs) k = (case map_of kvs k of None \<Rightarrow> JUndefined | Some v \<Rightarrow> v)"
| "get_prop_opt v k = JUndefined"

text \<open>\<open>a || b\<close>\<close>

definition js_or :: "jsval \<Rightarrow> jsval \<Rightarrow> jsval" where
  "js_or a b = (if truthy a then a else b)"

text \<open>
  \<open>NextResponse.json(body, { status })\<close>; the status is 200 when none is given.  It builds
  the response with \<open>Response.json\<close>, which throws a RangeError for a status outside 200
  to 599 and, since the response has a body, a TypeError for a status that allows none
  (101, 103, 204, 205 and 304).
\<close>

record http_response =
  status :: nat
  body :: jsval

definition null_body_status :: "nat \<Rightarrow> bool" where
  "null_body_status st \<longleftrightarrow> st = 101 \<or> st = 103 \<or> st = 204 \<or> st = 205 \<or> st = 304"

definition NextResponse_json :: "jsval \<Rightarrow> nat \<Rightarrow> js_error + http_response" where
  "NextResponse_json b st =
     (if st < 200 \<or> 599 < st then Inl RangeError
      else if null_body_status st then Inl TypeError
      else Inr \<lparr>status = st, body = b\<rparr>)"

definition error_body :: "jsval \<Rightarrow> jsval" where
  "error_body e = JObj [(ascii ''error'', e)]"

section \<open>History normalisation (both route handlers)\<close>

text \<open>
  \<open>{ ...msg, timestamp: msg.timestamp instanceof Date ? msg.timestamp : new Date(msg.timestamp) }\<close>.
  No value out of \<open>JSON.parse\<close> is a \<open>Date\<close>, so the second branch is the one taken.  The
  object built is kept as the message it spreads and the value given to \<open>new Date\<close>.
  Reading \<open>msg.timestamp\<close> throws when \<open>msg\<close> is \<open>null\<close>.
\<close>

record normalized_message =
  nm_spread :: jsval
  nm_timestamp :: jsval

definition normalize_msg :: "jsval \<Rightarrow> js_error + normalized_message" where
  "normalize_msg msg =
     (case get_prop msg (ascii ''timestamp'') of
        Inl e \<Rightarrow> Inl e
      | Inr ts \<Rightarrow> Inr \<lparr>nm_spread = msg, nm_timestamp = ts\<rparr>)"

text \<open>\<open>xs.map(f)\<close> with a callback that may throw: the first throw ends the loop.\<close>

fun map_throw :: "('a \<Rightarrow> js_error + 'b) \<Rightarrow> 'a list \<Rightarrow> js_error + 'b list" where
  "map_throw f [] = Inr []"
| "map_throw f (x # xs) =
     (case f x of
        Inl e \<Rightarrow> Inl e
      | Inr y \<Rightarrow> (case map_throw f xs of Inl e \<Rightarrow> Inl e | Inr ys \<Rightarrow> Inr (y # ys)))"

text \<open>\<open>(messageHistory || []).map(...)\<close>: only an array has a \<open>map\<close> method to call.\<close>

definition normalize_history :: "jsval \<Rightarrow> js_error + normalized_message list" where
  "normalize_history messageHistory =
     (case js_or messageHistory (JArr []) of
        JArr msgs \<Rightarrow> map_throw normalize_msg msgs
      | _ \<Rightarrow> Inl TypeError)"

section \<open>The model-backed chat route (app/api/chat/route.ts, first version)\<close>

text \<open>
  \<open>processUserMessage\<close> is imported from the service module; the handler passes it the
  request's values under unchecked casts.  The handler is given the service as a function,
  and returns its response together with the calls it made to the service.
  \<open>request_json\<close> is the outcome of \<open>await request.json()\<close>: the parsed body, or the error
  thrown for a body that is no JSON.
\<close>

record service_call =
  sc_userMessage :: jsval
  sc_currentState :: jsval
  sc_messageHistory :: "normalized_message list"

type_synonym service = "service_call \<Rightarrow> js_error + jsval"

definition chat_try :: "service \<Rightarrow> js_error + jsval \<Rightarrow> service_call list \<times> (js_error + http_response)" where
  "chat_try svc request_json =
     (case request_json of
        Inl e \<Rightarrow> ([], Inl e)
      | Inr b \<Rightarrow>
     (case get_prop b (ascii ''userMessage'') of
        Inl e \<Rightarrow> ([], Inl e)
      | Inr userMessage \<Rightarrow>
     (case get_prop b (ascii ''currentState'') of
        Inl e \<Rightarrow> ([], Inl e)
      | Inr currentState \<Rightarrow>
     (case get_prop b (ascii ''messageHistory'') of
        Inl e \<Rightarrow> ([], Inl e)
      | Inr messageHistory \<Rightarrow>
     if \<not> truthy userMessage \<or> typeof userMessage \<noteq> ascii ''string'' then
       ([], NextResponse_json
          (error_body (JStr (ascii ''userMessage is required and must be a string''))) 400)
     else if \<not> truthy currentState then
       ([], NextResponse_json (error_body (JStr (ascii ''currentState is required''))) 400)
     else
     (case normalize_history messageHistory of
        Inl e \<Rightarrow> ([], Inl e)
      | Inr normalizedHistory \<Rightarrow>
     (let call = \<lparr>sc_userMessage = userMessage, sc_currentState = currentState,
                  sc_messageHistory = normalizedHistory\<rparr>
      in ([call],
          case svc call of
            Inl e \<Rightarrow> Inl e
          | Inr response \<Rightarrow> NextResponse_json response 200)))))))"

text \<open>
  The \<open>catch\<close> of the handler returns \<open>NextResponse.json\<close> of the generic error with the
  status 500, a status that \<open>NextResponse.json\<close> accepts: the \<open>catch\<close> itself throws
  nothing.
\<close>

definition internal_server_error :: http_response where
  "internal_server_error =
     \<lparr>status = 500, body = error_body (JStr (ascii ''Internal server error''))\<rparr>"

definition POST_chat :: "service \<Rightarrow> js_error + jsval \<Rightarrow> service_call list \<times> http_response" where
  "POST_chat svc request_json =
     (case chat_try svc request_json of
        (calls, Inl e) \<Rightarrow> (calls, internal_server_error)
      | (calls, Inr r) \<Rightarrow> (calls, r))"

section \<open>The proxy route (app/api/chat/route.ts, second version)\<close>

record backend_response =
  br_status :: nat
  br_json :: "js_error + jsval"

text \<open>\<open>response.ok\<close>\<close>

definition br_ok :: "backend_response \<Rightarrow> bool" where
  "br_ok r \<longleftrightarrow> 200 \<le> br_status r \<and> br_status r \<le> 299"

text \<open>The request given to \<open>fetch\<close>: the URL, the \<open>session_id\<close> query parameter when one
  is set, and the two members of the JSON body.\<close>

record fetch_request =
  fr_url :: jsstring
  fr_session_id :: "jsval option"
  fr_userMessage :: jsval
  fr_messageHistory :: "normalized_message list"

text \<open>What the handler takes from its surroundings: the two environment variables, the
  URL parser (it throws on a string that is no URL) and the network.\<close>

record proxy_env =
  env_PYTHON_SERVICE_URL :: "jsstring option"
  env_NEXT_PUBLIC_PYTHON_SERVICE_URL :: "jsstring option"
  new_URL :: "jsstring \<Rightarrow> js_error + jsstring"
  fetch :: "fetch_request \<Rightarrow> js_error + backend_response"

text \<open>\<open>a || b\<close> on environment variables: an unset and an empty variable are falsy.\<close>

definition env_or :: "jsstring option \<Rightarrow> jsstring option \<Rightarrow> jsstring option" where
  "env_or a b = (case a of None \<Rightarrow> b | Some s \<Rightarrow> if s = [] then b else Some s)"

definition PYTHON_SERVICE_URL :: "proxy_env \<Rightarrow> jsstring" where
  "PYTHON_SERVICE_URL env =
     (case env_or (env_or (env_PYTHON_SERVICE_URL env) (env_NEXT_PUBLIC_PYTHON_SERVICE_URL env))
             (Some (ascii ''http://localhost:8000'')) of
        Some s \<Rightarrow> s
      | None \<Rightarrow> [])"

text \<open>\<open>s.replace(/\/$/, '')\<close>: one slash at the very end is removed.\<close>

definition strip_trailing_slash :: "jsstring \<Rightarrow> jsstring" where
  "strip_trailing_slash s = (if s \<noteq> [] \<and> last s = 0x2F then butlast s else s)"

text \<open>The handler after its \<open>await fetch\<close>: the promise was rejected, or it gave a
  response.\<close>

definition proxy_settle :: "js_error + backend_response \<Rightarrow> js_error + http_response" where
  "proxy_settle outcome =
     (case outcome of
        Inl e \<Rightarrow> Inl e
      | Inr response \<Rightarrow>
          if \<not> br_ok response then
            (let errorBody = (case br_json response of Inl e \<Rightarrow> JObj [] | Inr v \<Rightarrow> v)
             in NextResponse_json
                  (error_body (js_or (get_prop_opt errorBody (ascii ''detail''))
                                     (JStr (ascii ''Python service error''))))
                  (br_status response))
          else
            (case br_json response of
               Inl e \<Rightarrow> Inl e
             | Inr data \<Rightarrow> NextResponse_json data 200))"

text \<open>The body of the \<open>try\<close>, with the requests it sent to the backend.\<close>

definition proxy_try :: "proxy_env \<Rightarrow> js_error + jsval \<Rightarrow> fetch_request list \<times> (js_error + http_response)" where
  "proxy_try env request_json =
     (case request_json of
        Inl e \<Rightarrow> ([], Inl e)
      | Inr b \<Rightarrow>
     (case get_prop b (ascii ''userMessage'') of
        Inl e \<Rightarrow> ([], Inl e)
      | Inr userMessage \<Rightarrow>
     (case get_prop b (ascii ''messageHistory'') of
        Inl e \<Rightarrow> ([], Inl e)
      | Inr messageHistory \<Rightarrow>
     (case get_prop b (ascii ''sessionId'') of
        Inl e \<Rightarrow> ([], Inl e)
      | Inr sessionId \<Rightarrow>
     if \<not> truthy userMessage \<or> typeof userMessage \<noteq> ascii ''string'' then
       ([], NextResponse_json
          (error_body (JStr (ascii ''userMessage is required and must be a string''))) 400)
     else
     (case normalize_history messageHistory of
        Inl e \<Rightarrow> ([], Inl e)
      | Inr normalizedHistory \<Rightarrow>
     (case new_URL env (strip_trailing_slash (PYTHON_SERVICE_URL env) @ ascii ''/api/chat'') of
        Inl e \<Rightarrow> ([], Inl e)
      | Inr url \<Rightarrow>
     (let req = \<lparr>fr_url = url,
                 fr_session_id = (if truthy sessionId then Some sessionId else None),
                 fr_userMessage = userMessage,
                 fr_messageHistory = normalizedHistory\<rparr>
      in ([req], proxy_settle (fetch env req)))))))))"

definition POST_proxy :: "proxy_env \<Rightarrow> js_error + jsval \<Rightarrow> fetch_request list \<times> http_response" where
  "POST_proxy env request_json =
     (case proxy_try env request_json of
        (calls, Inl e) \<Rightarrow> (calls, internal_server_error)
      | (calls, Inr r) \<Rightarrow> (calls, r))"

text \<open>
  The error detail of a backend response, as the specification speaks of it: the
  \<open>detail\<close> member of its JSON body, when the body is JSON, is an object, and has a
  member of that name that is not falsy.
\<close>

definition error_detail :: "backend_response \<Rightarrow> jsval option" where
  "error_detail r =
     (case br_json r of
        Inr (JObj kvs) \<Rightarrow>
          (case map_of kvs (ascii ''detail'') of
             Some d \<Rightarrow> if truthy d then Some d else None
           | None \<Rightarrow> None)
      | _ \<Rightarrow> None)"

section \<open>The model-invocation service (services/geminiService.ts)\<close>

text \<open>The reply of the service.  \<open>promo_r\<close> is \<open>None\<close> when the member is absent or
  \<open>null\<close>.\<close>

record AgentResponse =
  agentResponse :: jsstring
  updatedState :: TransferState
  promo_r :: "PromoData option"

text \<open>\<open>xs.slice(start)\<close>: a negative start counts from the end, and both are clamped to
  the array.\<close>

definition js_slice :: "'a list \<Rightarrow> int \<Rightarrow> 'a list" where
  "js_slice xs start =
     (let len = int (length xs);
          k = (if start < 0 then max (len + start) 0 else min start len)
      in drop (nat k) xs)"

text \<open>\<open>xs.join(sep)\<close>\<close>

fun js_join :: "jsstring \<Rightarrow> jsstring list \<Rightarrow> jsstring" where
  "js_join sep [] = []"
| "js_join sep [x] = x"
| "js_join sep (x # y # ys) = x @ sep @ js_join sep (y # ys)"

text \<open>\<open>m.role.toUpperCase()\<close> on the two roles.\<close>

fun role_toUpperCase :: "Role \<Rightarrow> jsstring" where
  "role_toUpperCase User = ascii ''USER''"
| "role_toUpperCase Agent = ascii ''AGENT''"

text \<open>The callback of \<open>map\<close>: one history line.\<close>

definition history_line :: "Message \<Rightarrow> jsstring" where
  "history_line m = role_toUpperCase (role m) @ ascii '': '' @ content m"

definition chatHistoryText :: "Message list \<Rightarrow> jsstring" where
  "chatHistoryText messageHistory =
     js_join (ascii ''\<newline>'') (map history_line (js_slice messageHistory (- 10)))"

text \<open>The request given to \<open>ai.models.generateContent\<close>.  The system instruction, the
  response schema and the temperature are the same in every call and carry no data of
  the call; they are not part of the record.\<close>

record gemini_request =
  gr_apiKey :: jsstring
  gr_model :: jsstring
  gr_contents :: jsstring

text \<open>
  What the service takes from its surroundings: the two environment variables,
  \<open>JSON.stringify(currentState, null, 2)\<close>, the model call with the \<open>text\<close> of its result
  (\<open>None\<close> when undefined), and \<open>JSON.parse\<close> under the cast to \<open>AgentResponse\<close>.
  An error of the client library, when it is constructed or when it calls the model, is an
  error of the model call.
\<close>

record gemini_env =
  env_GEMINI_API_KEY :: "jsstring option"
  env_API_KEY :: "jsstring option"
  json_stringify :: "TransferState \<Rightarrow> jsstring"
  generateContent :: "gemini_request \<Rightarrow> js_error + jsstring option"
  json_parse :: "jsstring \<Rightarrow> js_error + AgentResponse"

definition prompt :: "gemini_env \<Rightarrow> jsstring \<Rightarrow> TransferState \<Rightarrow> Message list \<Rightarrow> jsstring" where
  "prompt env userMessage currentState messageHistory =
     ascii ''\<newline>      Current Internal State:\<newline>      ''
     @ json_stringify env currentState
     @ ascii ''\<newline>\<newline>      Conversation History:\<newline>      ''
     @ chatHistoryText messageHistory
     @ ascii ''\<newline>\<newline>      User's Latest Input:\<newline>      \"''
     @ userMessage
     @ ascii ''\"\<newline>\<newline>      Based on the history and the latest input, return the JSON object with the natural language response and the updated state.\<newline>    ''"

text \<open>The body of the \<open>try\<close>, with the requests it made to the model.\<close>

definition process_try :: "gemini_env \<Rightarrow> jsstring \<Rightarrow> TransferState \<Rightarrow> Message list \<Rightarrow>
    gemini_request list \<times> (js_error + AgentResponse)" where
  "process_try env userMessage currentState messageHistory =
     (case env_or (env_GEMINI_API_KEY env) (env_API_KEY env) of
        None \<Rightarrow>
          ([], Inl (Error (ascii ''GEMINI_API_KEY or API_KEY environment variable is not set'')))
      | Some apiKey \<Rightarrow>
     if apiKey = [] then
       ([], Inl (Error (ascii ''GEMINI_API_KEY or API_KEY environment variable is not set'')))
     else
     (let req = \<lparr>gr_apiKey = apiKey, gr_model = ascii ''gemini-2.5-flash'',
                 gr_contents = prompt env userMessage currentState messageHistory\<rparr>
      in ([req],
          case generateContent env req of
            Inl e \<Rightarrow> Inl e
          | Inr None \<Rightarrow> Inl (Error (ascii ''No response from Gemini''))
          | Inr (Some text) \<Rightarrow>
              if text = [] then Inl (Error (ascii ''No response from Gemini''))
              else json_parse env text)))"

text \<open>The value returned by the \<open>catch\<close>: it has no \<open>promo\<close> member.\<close>

definition fallback :: "TransferState \<Rightarrow> AgentResponse" where
  "fallback currentState =
     \<lparr>agentResponse = ascii ''I'm having trouble connecting to the network right now. Please try again in a moment.'',
      updatedState = currentState,
      promo_r = None\<rparr>"

text \<open>The promise returned by the function: \<open>Inr\<close> when it is fulfilled, \<open>Inl\<close> when it is
  rejected.\<close>

definition processUserMessage :: "gemini_env \<Rightarrow> jsstring \<Rightarrow> TransferState \<Rightarrow> Message list \<Rightarrow>
    gemini_request list \<times> (js_error + AgentResponse)" where
  "processUserMessage env userMessage currentState messageHistory =
     (case process_try env userMessage currentState messageHistory of
        (calls, Inl e) \<Rightarrow> (calls, Inr (fallback currentState))
      | (calls, Inr r) \<Rightarrow> (calls, Inr r))"

text \<open>The last \<open>n\<close> elements of a list, as the specification speaks of them.\<close>

definition last_n :: "nat \<Rightarrow> 'a list \<Rightarrow> 'a list" where
  "last_n n xs = (if length xs \<le> n then xs else drop (length xs - n) xs)"

section \<open>The chat page (app/page.tsx)\<close>

definition INITIAL_STATE :: TransferState where
  "INITIAL_STATE =
     \<lparr>destinationCountry = None, amount = None, beneficiaryName = None,
      deliveryMethod = None, isComplete = False\<rparr>"

text \<open>The greeting is built once, when the module is loaded; \<open>loaded\<close> is that time.\<close>

definition INITIAL_MESSAGE :: "nat \<Rightarrow> Message" where
  "INITIAL_MESSAGE loaded =
     \<lparr>id_m = ascii ''init-1'', role = Agent,
      content = ascii ''Hi! I'm your Send Money Assistant. How can I help you with your transfer today?'',
      timestamp = loaded, promo_m = None\<rparr>"

text \<open>\<open>n.toString()\<close> of a natural number: its decimal digits.\<close>

function decimal :: "nat \<Rightarrow> jsstring" where
  "decimal n = (if n < 10 then [of_nat (48 + n)] else decimal (n div 10) @ [of_nat (48 + n mod 10)])"
  by pat_completeness auto
termination
  by (relation "measure id") auto

declare decimal.simps [simp del]

text \<open>
  The sources of a session identifier: the result of \<open>crypto.randomUUID?.()\<close> (\<open>None\<close>
  where the browser has no such function), \<open>Date.now()\<close>, and the nine characters
  \<open>Math.random().toString(36).substr(2, 9)\<close>.
\<close>

record id_source =
  randomUUID :: "jsstring option"
  date_now :: nat
  random_digits :: jsstring

definition new_session_id :: "id_source \<Rightarrow> jsstring" where
  "new_session_id src =
     (let generated = ascii ''session-'' @ decimal (date_now src) @ ascii ''-'' @ random_digits src
      in case randomUUID src of
           None \<Rightarrow> generated
         | Some u \<Rightarrow> if u \<noteq> [] then u else generated)"

text \<open>The body of a request to \<open>/api/chat\<close>.\<close>

record chat_request =
  cr_userMessage :: jsstring
  cr_messageHistory :: "Message list"
  cr_sessionId :: jsstring

text \<open>
  A call of \<open>handleSendMessage\<close> that waits for its \<open>fetch\<close>: the request it sent, and
  the \<open>transferState\<close> of the render that created the handler, which is the value the
  rest of the function reads.
\<close>

record pending =
  p_request :: chat_request
  p_transferState :: TransferState

text \<open>The state of the component, and the calls that wait for a response.  The flag of
  the mobile menu takes no part in any operation below and is left out.\<close>

record ClientState =
  messages :: "Message list"
  transferState :: TransferState
  inputValue :: jsstring
  isLoading :: bool
  sessionId :: jsstring
  inflight :: "pending list"

text \<open>The first render in the browser.\<close>

definition initial :: "nat \<Rightarrow> id_source \<Rightarrow> ClientState" where
  "initial loaded src =
     \<lparr>messages = [INITIAL_MESSAGE loaded], transferState = INITIAL_STATE, inputValue = [],
      isLoading = False, sessionId = new_session_id src, inflight = []\<rparr>"

text \<open>\<open>handleSendMessage\<close> up to its \<open>await fetch\<close>.  \<open>now_id\<close> and \<open>now_ts\<close> are the clock
  readings of \<open>Date.now()\<close> and \<open>new Date()\<close>.\<close>

definition handleSendMessage :: "nat \<Rightarrow> nat \<Rightarrow> ClientState \<Rightarrow> ClientState" where
  "handleSendMessage now_id now_ts s =
     (if js_trim (inputValue s) = [] \<or> isLoading s then s
      else
        let userText = js_trim (inputValue s);
            userMsg = \<lparr>id_m = decimal now_id, role = User, content = userText,
                       timestamp = now_ts, promo_m = None\<rparr>;
            newHistory = messages s @ [userMsg]
        in s\<lparr>inputValue := [], messages := newHistory, isLoading := True,
              inflight := inflight s @
                [\<lparr>p_request = \<lparr>cr_userMessage = userText, cr_messageHistory = newHistory,
                                 cr_sessionId = sessionId s\<rparr>,
                  p_transferState = transferState s\<rparr>]\<rparr>)"

text \<open>
  What comes back from \<open>fetch\<close>.  The body is typed by the \<open>AgentResponse\<close> interface; a
  member is \<open>None\<close> when it is absent or \<open>null\<close>.
\<close>

record ResponseData =
  rd_agentResponse :: "jsstring option"
  rd_updatedState :: "TransferState option"
  rd_promo :: "PromoData option"

datatype reply_body = NotJson | JsonNull | JsonData ResponseData

datatype fetch_outcome = FetchRejected | FetchResponse bool reply_body

text \<open>The rest of the \<open>try\<close> in \<open>handleSendMessage\<close>, up to the checked data.\<close>

definition response_try :: "fetch_outcome \<Rightarrow> js_error + (jsstring \<times> ResponseData)" where
  "response_try outcome =
     (case outcome of
        FetchRejected \<Rightarrow> Inl TypeError
      | FetchResponse ok b \<Rightarrow>
          if \<not> ok then Inl (Error (ascii ''Failed to get response from server''))
          else
            (case b of
               NotJson \<Rightarrow> Inl SyntaxError
             | JsonNull \<Rightarrow> Inl TypeError
             | JsonData d \<Rightarrow>
                 (case rd_agentResponse d of
                    None \<Rightarrow> Inl (Error (ascii ''Invalid response format: missing agentResponse''))
                  | Some a \<Rightarrow>
                      if a = [] then
                        Inl (Error (ascii ''Invalid response format: missing agentResponse''))
                      else Inr (a, d))))"

text \<open>\<open>handleSendMessage\<close> after its \<open>await fetch\<close>: the \<open>try\<close>, the \<open>catch\<close> and the
  \<open>finally\<close>, for the waiting call \<open>p\<close>.\<close>

definition handleResponse :: "fetch_outcome \<Rightarrow> nat \<Rightarrow> nat \<Rightarrow> pending \<Rightarrow> ClientState \<Rightarrow> ClientState" where
  "handleResponse outcome now_id now_ts p s =
     (let s' =
        (case response_try outcome of
           Inr (a, d) \<Rightarrow>
             s\<lparr>messages := messages s @
                   [\<lparr>id_m = decimal (now_id + 1), role = Agent, content = a,
                     timestamp = now_ts, promo_m = rd_promo d\<rparr>],
               transferState :=
                   (case rd_updatedState d of Some u \<Rightarrow> u | None \<Rightarrow> p_transferState p)\<rparr>
         | Inl e \<Rightarrow>
             s\<lparr>messages := messages s @
                   [\<lparr>id_m = decimal (now_id + 1), role = Agent,
                     content = ascii ''I'm having trouble connecting right now. Please try again in a moment.'',
                     timestamp = now_ts, promo_m = None\<rparr>]\<rparr>)
      in s'\<lparr>isLoading := False\<rparr>)"

definition handleReset :: "nat \<Rightarrow> id_source \<Rightarrow> ClientState \<Rightarrow> ClientState" where
  "handleReset loaded src s =
     s\<lparr>messages := [INITIAL_MESSAGE loaded], transferState := INITIAL_STATE,
       inputValue := [], sessionId := new_session_id src\<rparr>"

text \<open>
  The events of the page: typing into the input, submitting the form, the settling of
  the \<open>i\<close>-th waiting \<open>fetch\<close>, and the reset button.  In \<open>step\<close> and \<open>run\<close> each event
  is handled on a render of its own: its handler reads the state that the events before
  it have left.
\<close>

datatype event =
    Change jsstring
  | Submit nat nat
  | Settle nat fetch_outcome nat nat
  | Reset id_source

fun step :: "nat \<Rightarrow> ClientState \<Rightarrow> event \<Rightarrow> ClientState" where
  "step loaded s (Change v) = s\<lparr>inputValue := v\<rparr>"
| "step loaded s (Submit now_id now_ts) = handleSendMessage now_id now_ts s"
| "step loaded s (Settle i outcome now_id now_ts) =
     (if i < length (inflight s) then
        (handleResponse outcome now_id now_ts (inflight s ! i) s)
          \<lparr>inflight := take i (inflight s) @ drop (Suc i) (inflight s)\<rparr>
      else s)"
| "step loaded s (Reset src) = handleReset loaded src s"

definition run :: "nat \<Rightarrow> id_source \<Rightarrow> event list \<Rightarrow> ClientState" where
  "run loaded src evs = foldl (step loaded) (initial loaded src) evs"

text \<open>
  A handler reads the state through the closure of the render that created it, and the
  state setters take effect at the next render.  Of the handlers only \<open>handleSendMessage\<close>
  reads the state: in \<open>handleSendMessage_in\<close> the render \<open>r\<close> gives \<open>inputValue\<close>,
  \<open>isLoading\<close>, \<open>messages\<close>, \<open>sessionId\<close> and \<open>transferState\<close>, and \<open>s\<close> is the state that the
  setters update.
\<close>

definition handleSendMessage_in :: "nat \<Rightarrow> nat \<Rightarrow> ClientState \<Rightarrow> ClientState \<Rightarrow> ClientState" where
  "handleSendMessage_in now_id now_ts r s =
     (if js_trim (inputValue r) = [] \<or> isLoading r then s
      else
        let userText = js_trim (inputValue r);
            userMsg = \<lparr>id_m = decimal now_id, role = User, content = userText,
                       timestamp = now_ts, promo_m = None\<rparr>;
            newHistory = messages r @ [userMsg]
        in s\<lparr>inputValue := [], messages := newHistory, isLoading := True,
              inflight := inflight s @
                [\<lparr>p_request = \<lparr>cr_userMessage = userText, cr_messageHistory = newHistory,
                                 cr_sessionId = sessionId r\<rparr>,
                  p_transferState = transferState r\<rparr>]\<rparr>)"

fun step_in :: "nat \<Rightarrow> ClientState \<Rightarrow> ClientState \<Rightarrow> event \<Rightarrow> ClientState" where
  "step_in loaded r s (Change v) = s\<lparr>inputValue := v\<rparr>"
| "step_in loaded r s (Submit now_id now_ts) = handleSendMessage_in now_id now_ts r s"
| "step_in loaded r s (Settle i outcome now_id now_ts) =
     (if i < length (inflight s) then
        (handleResponse outcome now_id now_ts (inflight s ! i) s)
          \<lparr>inflight := take i (inflight s) @ drop (Suc i) (inflight s)\<rparr>
      else s)"
| "step_in loaded r s (Reset src) = handleReset loaded src s"

text \<open>The events handled on one render, in order; the render shows the state at their
  start.  Then the page as a sequence of renders.\<close>

definition task :: "nat \<Rightarrow> ClientState \<Rightarrow> event list \<Rightarrow> ClientState" where
  "task loaded s evs = foldl (step_in loaded s) s evs"

definition run_tasks :: "nat \<Rightarrow> id_source \<Rightarrow> event list list \<Rightarrow> ClientState" where
  "run_tasks loaded src tasks = foldl (task loaded) (initial loaded src) tasks"

fun is_submit :: "event \<Rightarrow> bool" where
  "is_submit (Submit now_id now_ts) = True"
| "is_submit e = False"



text \<open>
  The invariant of the specification: the completion flag is set exactly when the four
  fields are non-null and the name has at least two white-space separated tokens.
\<close>

definition completion_consistent :: "TransferState \<Rightarrow> bool" where
  "completion_consistent st \<longleftrightarrow>
     (isComplete st \<longleftrightarrow>
        destinationCountry st \<noteq> None \<and> amount st \<noteq> None \<and> deliveryMethod st \<noteq> None \<and>
        (case beneficiaryName st of None \<Rightarrow> False | Some n \<Rightarrow> 2 \<le> length (ws_tokens n)))"

text \<open>The state a response carries, if any.\<close>

fun carried_state :: "event \<Rightarrow> TransferState option" where
  "carried_state (Settle i (FetchResponse ok (JsonData d)) now_id now_ts) = rd_updatedState d"
| "carried_state e = None"

text \<open>
  The fields that the progress bar counts, as the specification speaks of them: a field
  is satisfied when it is non-null, the beneficiary name when it is non-null and its
  trimmed value has at least two white-space separated tokens.
\<close>

definition satisfied_count :: "TransferState \<Rightarrow> nat" where
  "satisfied_count st =
     (if destinationCountry st \<noteq> None then 1 else 0)
     + (if amount st \<noteq> None then 1 else 0)
     + (case beneficiaryName st of
          None \<Rightarrow> 0
        | Some n \<Rightarrow> if 2 \<le> length (ws_tokens (js_trim n)) then 1 else 0)
     + (if deliveryMethod st \<noteq> None then 1 else 0)"

section \<open>Invariants of the chat page\<close>

text \<open>
  At most one call waits for its response, and the loading flag is set exactly while one
  does.
\<close>

definition one_request :: "ClientState \<Rightarrow> bool" where
  "one_request s \<longleftrightarrow> length (inflight s) \<le> 1 \<and> (isLoading s \<longleftrightarrow> inflight s \<noteq> [])"

text \<open>
  Every waiting call holds the transfer state that the page shows now.
\<close>

definition captured_current :: "ClientState \<Rightarrow> bool" where
  "captured_current s \<longleftrightarrow> (\<forall>p \<in> set (inflight s). p_transferState p = transferState s)"

fun is_reset :: "event \<Rightarrow> bool" where
  "is_reset (Reset src) = True"
| "is_reset e = False"

text \<open>
  The completion invariant holds of the state the page shows and of every state a
  waiting call holds.
\<close>

definition states_consistent :: "ClientState \<Rightarrow> bool" where
  "states_consistent s \<longleftrightarrow>
     completion_consistent (transferState s) \<and>
     (\<forall>p \<in> set (inflight s). completion_consistent (p_transferState p))"

section \<open>Example inputs\<close>

text \<open>
  Sources of session identifiers: a browser with \<open>crypto.randomUUID\<close>, and one without.
\<close>

definition uuid_source :: id_source where
  "uuid_source = \<lparr>randomUUID = Some (ascii ''0b5c''), date_now = 0, random_digits = []\<rparr>"


definition brazil_state :: TransferState where
  "brazil_state = \<lparr>destinationCountry = Some (ascii ''Brazil''), amount = Some (ascii ''500 BRL''),
     beneficiaryName = None, deliveryMethod = None, isComplete = False\<rparr>"

definition flagged_empty :: TransferState where
  "flagged_empty = \<lparr>destinationCountry = None, amount = None, beneficiaryName = None,
     deliveryMethod = None, isComplete = True\<rparr>"

text \<open>
  A first exchange that fills two fields; then a second message, and the reset button
  pressed while its request is outstanding; then the late reply to that request, which
  carries no state.
\<close>

definition first_exchange :: "event list" where
  "first_exchange =
     [Change (ascii ''send 500 to Brazil''), Submit 1 1,
      Settle 0 (FetchResponse True (JsonData
        \<lparr>rd_agentResponse = Some (ascii ''Who receives it?''),
         rd_updatedState = Some brazil_state, rd_promo = None\<rparr>)) 2 2]"

definition reset_while_waiting :: "event list" where
  "reset_while_waiting =
     first_exchange @ [Change (ascii ''Maria Silva''), Submit 3 3, Reset uuid_source]"

definition late_reply :: event where
  "late_reply = Settle 0 (FetchResponse True (JsonData
        \<lparr>rd_agentResponse = Some (ascii ''Which method?''),
         rd_updatedState = None, rd_promo = None\<rparr>)) 4 4"

text \<open>
  An exchange whose reply sets the completion flag on an empty state.
\<close>

definition flagged_exchange :: "event list" where
  "flagged_exchange =
     [Change (ascii ''hi''), Submit 1 1,
      Settle 0 (FetchResponse True (JsonData
        \<lparr>rd_agentResponse = Some (ascii ''Done.''),
         rd_updatedState = Some flagged_empty, rd_promo = None\<rparr>)) 2 2]"

text \<open>
  Two submits handled on one render; typing and submitting twice, each on a render of
  its own, without a reply in between.
\<close>

definition double_submit :: "event list list" where
  "double_submit = [[Change (ascii ''send 500 to Brazil'')], [Submit 1 1, Submit 1 1]]"

definition typing :: "event list" where
  "typing = [Change (ascii ''send 500 to Brazil''), Submit 1 1, Change (ascii ''hello?''), Submit 2 2]"

text \<open>
  Environments of the proxy route: one without a backend, and one whose backend gives a
  fixed answer; a well-formed request and the request the handler sends for it.
\<close>

definition offline_env :: proxy_env where
  "offline_env = \<lparr>env_PYTHON_SERVICE_URL = None, env_NEXT_PUBLIC_PYTHON_SERVICE_URL = None,
     new_URL = (\<lambda>u. Inr u), fetch = (\<lambda>r. Inl TypeError)\<rparr>"

definition backend_env :: "(js_error + backend_response) \<Rightarrow> proxy_env" where
  "backend_env answer =
     \<lparr>env_PYTHON_SERVICE_URL = Some (ascii ''http://backend:8000/''),
      env_NEXT_PUBLIC_PYTHON_SERVICE_URL = None,
      new_URL = (\<lambda>u. Inr u), fetch = (\<lambda>r. answer)\<rparr>"

definition hello_request :: jsval where
  "hello_request = JObj [(ascii ''userMessage'', JStr (ascii ''hello'')),
     (ascii ''messageHistory'', JArr []), (ascii ''sessionId'', JStr (ascii ''s1''))]"

definition hello_fetch :: fetch_request where
  "hello_fetch = \<lparr>fr_url = ascii ''http://backend:8000/api/chat'',
     fr_session_id = Some (JStr (ascii ''s1'')), fr_userMessage = JStr (ascii ''hello''),
     fr_messageHistory = []\<rparr>"

text \<open>
  A history of numbered turns, and environments of the service: a model that echoes its
  prompt, no API key, a model call with a fixed outcome whose text does not parse, and a
  model whose text parses to a fixed reply.
\<close>

definition turn :: "nat \<Rightarrow> Message" where
  "turn n = \<lparr>id_m = decimal n, role = (if even n then User else Agent),
     content = decimal n, timestamp = n, promo_m = None\<rparr>"

definition echo_env :: gemini_env where
  "echo_env = \<lparr>env_GEMINI_API_KEY = Some (ascii ''k''), env_API_KEY = None,
     json_stringify = (\<lambda>st. ascii ''{}''),
     generateContent = (\<lambda>req. Inr (Some (gr_contents req))),
     json_parse = (\<lambda>text. Inl SyntaxError)\<rparr>"



definition parsing_env :: "AgentResponse \<Rightarrow> gemini_env" where
  "parsing_env reply = \<lparr>env_GEMINI_API_KEY = Some (ascii ''k''), env_API_KEY = None,
     json_stringify = (\<lambda>st. ascii ''{}''),
     generateContent = (\<lambda>req. Inr (Some (ascii ''{}''))),
     json_parse = (\<lambda>text. Inr reply)\<rparr>"

section \<open>Trimming, splitting and tokens\<close>

lemma ws_tokens_dropWhile: "ws_tokens (dropWhile is_ws s) = ws_tokens s"
  by (induction s) simp_all

lemma ws_tokens_all_ws: "\<forall>c \<in> set t. is_ws c \<Longrightarrow> ws_tokens t = []"
  by (induction t) simp_all

lemma ws_tokens_append_ws:
  "\<forall>c \<in> set t. is_ws c \<Longrightarrow> ws_tokens (s @ t) = ws_tokens s"
proof (induction s rule: ws_tokens.induct)
  case 1
  then show ?case by (simp add: ws_tokens_all_ws)
next
  case (2 c cs)
  show ?case
  proof (cases "is_ws c")
    case True
    with 2 show ?thesis by simp
  next
    case False
    show ?thesis
    proof (cases "\<forall>x \<in> set cs. non_ws x")
      case allnon: True
      have tw: "takeWhile non_ws (cs @ t) = cs"
        using allnon 2(3) by (cases t) (simp_all add: takeWhile_tail)
      have dw: "dropWhile non_ws (cs @ t) = t"
        using allnon 2(3) by (cases t) (simp_all add: dropWhile_append2)
      have t_none: "ws_tokens t = []"
        using 2(3) by (rule ws_tokens_all_ws)
      have dw0: "dropWhile non_ws cs = []" and tw0: "takeWhile non_ws cs = cs"
        using allnon by simp_all
      have "ws_tokens ((c # cs) @ t) =
          (c # takeWhile non_ws (cs @ t)) # ws_tokens (dropWhile non_ws (cs @ t))"
        using False by simp
      also have "\<dots> = [c # cs]"
        by (simp only: tw dw t_none)
      also have "\<dots> = ws_tokens (c # cs)"
        using False by (simp add: dw0 tw0)
      finally show ?thesis .
    next
      case False
      then obtain x where x: "x \<in> set cs" "is_ws x" by blast
      then have tw: "takeWhile non_ws (cs @ t) = takeWhile non_ws cs"
        by (simp add: takeWhile_append1)
      from x have dw: "dropWhile non_ws (cs @ t) = dropWhile non_ws cs @ t"
        by (simp add: dropWhile_append1)
      from 2(2) [OF \<open>non_ws c\<close>] 2(3)
      have "ws_tokens (dropWhile non_ws cs @ t) = ws_tokens (dropWhile non_ws cs)"
        by simp
      with \<open>non_ws c\<close> tw dw show ?thesis by simp
    qed
  qed
qed

lemma trim_decompose:
  "dropWhile is_ws s = js_trim s @ rev (takeWhile is_ws (rev (dropWhile is_ws s)))"
proof -
  let ?r = "rev (dropWhile is_ws s)"
  have "?r = takeWhile is_ws ?r @ dropWhile is_ws ?r"
    by (rule takeWhile_dropWhile_id [symmetric])
  then have "rev ?r = rev (takeWhile is_ws ?r @ dropWhile is_ws ?r)"
    by (rule arg_cong)
  then show ?thesis
    by (simp only: rev_append rev_rev_ident js_trim_def)
qed

lemma ws_tokens_trim: "ws_tokens (js_trim s) = ws_tokens s"
proof -
  let ?d = "dropWhile is_ws s"
  have "\<forall>c \<in> set (rev (takeWhile is_ws (rev ?d))). is_ws c"
    by (auto dest: set_takeWhileD)
  then have "ws_tokens (js_trim s @ rev (takeWhile is_ws (rev ?d))) = ws_tokens (js_trim s)"
    by (rule ws_tokens_append_ws)
  with trim_decompose [of s] have "ws_tokens ?d = ws_tokens (js_trim s)"
    by simp
  then show ?thesis
    by (simp add: ws_tokens_dropWhile)
qed

text \<open>On a string that does not end in white space, the splitter returns the current
  piece, completed, and then the tokens of the rest.\<close>

lemma split_loop_tokens:
  "(t \<noteq> [] \<longrightarrow> non_ws (last t)) \<Longrightarrow>
   split_loop acc t = (acc @ takeWhile non_ws t) # ws_tokens (dropWhile non_ws t)"
proof (induction acc t rule: split_loop.induct)
  case (1 acc)
  show ?case by simp
next
  case (2 acc c cs)
  show ?case
  proof (cases "is_ws c")
    case True
    let ?u = "dropWhile is_ws cs"
    from 2(3) True have cs_ne: "cs \<noteq> []" by auto
    with 2(3) have last_cs: "non_ws (last cs)" by simp
    have u_ne: "?u \<noteq> []"
      using cs_ne last_cs by (auto simp: dropWhile_eq_Nil_conv intro: last_in_set)
    have "last ?u = last cs"
      using u_ne by (metis takeWhile_dropWhile_id last_appendR)
    with last_cs have "?u \<noteq> [] \<longrightarrow> non_ws (last ?u)" by simp
    from 2(1) [OF True this]
    have ih: "split_loop [] ?u = takeWhile non_ws ?u # ws_tokens (dropWhile non_ws ?u)"
      by simp
    have hd_u: "non_ws (hd ?u)"
      using u_ne by (rule hd_dropWhile)
    from u_ne hd_u have "ws_tokens ?u = takeWhile non_ws ?u # ws_tokens (dropWhile non_ws ?u)"
      by (cases ?u) simp_all
    with ih have "split_loop [] ?u = ws_tokens cs"
      by (simp add: ws_tokens_dropWhile)
    with True show ?thesis by simp
  next
    case False
    from 2(3) have "cs \<noteq> [] \<longrightarrow> non_ws (last cs)" by auto
    from 2(2) [OF False this] False show ?thesis by simp
  qed
qed

lemma trim_no_trailing: "js_trim s \<noteq> [] \<Longrightarrow> non_ws (last (js_trim s))"
  unfolding js_trim_def
  by (metis hd_dropWhile last_rev rev_is_Nil_conv rev_rev_ident)

lemma trim_no_leading: "js_trim s \<noteq> [] \<Longrightarrow> non_ws (hd (js_trim s))"
proof -
  assume ne: "js_trim s \<noteq> []"
  have "dropWhile is_ws s \<noteq> []"
  proof
    assume "dropWhile is_ws s = []"
    then have "js_trim s = []" by (simp only: js_trim_def rev.simps dropWhile.simps)
    with ne show False by simp
  qed
  then have "non_ws (hd (dropWhile is_ws s))" by (rule hd_dropWhile)
  moreover have "hd (dropWhile is_ws s) = hd (js_trim s)"
    using ne trim_decompose [of s] by (metis hd_append2)
  ultimately show ?thesis by simp
qed

lemma split_trim_tokens:
  "js_split_ws (js_trim s) = (if ws_tokens s = [] then [[]] else ws_tokens s)"
proof (cases "js_trim s")
  case Nil
  then have "ws_tokens s = []" using ws_tokens_trim [of s] by simp
  with Nil show ?thesis by (simp add: js_split_ws_def)
next
  case (Cons c cs)
  then have ne: "js_trim s \<noteq> []" by simp
  from trim_no_leading [OF ne] Cons have c: "non_ws c" by simp
  from trim_no_trailing [OF ne] have "js_trim s \<noteq> [] \<longrightarrow> non_ws (last (js_trim s))" by simp
  from split_loop_tokens [OF this, of "[]"]
  have "js_split_ws (js_trim s) = takeWhile non_ws (js_trim s) # ws_tokens (dropWhile non_ws (js_trim s))"
    by (simp add: js_split_ws_def)
  also have "\<dots> = ws_tokens (js_trim s)"
    using c Cons by simp
  finally show ?thesis
    using c Cons ws_tokens_trim [of s] by auto
qed

text \<open>After trimming, the pieces of the split are the tokens of the string; a string
  without a token gives the one empty piece.\<close>

lemma isWarning_tokens: "isWarning v \<longleftrightarrow> length (ws_tokens (js_trim v)) < 2"
  by (simp add: isWarning_def split_trim_tokens ws_tokens_trim)

section \<open>The progress bar\<close>

lemma completedStepsCount_eq: "completedStepsCount st = satisfied_count st"
  by (simp add: completedStepsCount_def satisfied_count_def steps_def step_done_def
      ascii_def isWarning_tokens not_less split: option.split)

text \<open>
  Claim C6.  For every transfer state the progress fraction of the state panel (its
  percentage over one hundred) is the number of satisfied fields divided by four, where
  the destination country, the amount and the delivery method are satisfied exactly
  when they are non-null, and the beneficiary name exactly when it is non-null and its
  trimmed value has at least two white-space separated tokens.
\<close>

theorem C6_progress_fraction:
  "completedStepsCount st = satisfied_count st \<and>
   percentage st = of_nat (satisfied_count st) / 4 * 100 \<and>
   percentage st / 100 = of_nat (satisfied_count st) / 4"
  by (simp add: completedStepsCount_eq percentage_def) (simp add: steps_def)

theorem C6_progress_fraction_witness:
  "percentage \<lparr>destinationCountry = Some (ascii ''Brazil''), amount = Some (ascii ''500 BRL''),
      beneficiaryName = Some (ascii ''  John  ''), deliveryMethod = None, isComplete = False\<rparr> / 100
   = 2 / 4
   \<and> percentage \<lparr>destinationCountry = Some (ascii ''Brazil''), amount = None,
      beneficiaryName = Some (ascii ''John  Smith''), deliveryMethod = None, isComplete = False\<rparr> / 100
   = 2 / 4"
  using C6_progress_fraction [of "\<lparr>destinationCountry = Some (ascii ''Brazil''), amount = Some (ascii ''500 BRL''),
      beneficiaryName = Some (ascii ''  John  ''), deliveryMethod = None, isComplete = False\<rparr>"]
    C6_progress_fraction [of "\<lparr>destinationCountry = Some (ascii ''Brazil''), amount = None,
      beneficiaryName = Some (ascii ''John  Smith''), deliveryMethod = None, isComplete = False\<rparr>"]
  by (simp add: satisfied_count_def js_trim_def ascii_def is_ws_def)

section \<open>The route handlers\<close>

lemma get_prop_total:
  "get_prop b k = Inr v \<Longrightarrow> \<exists>v'. get_prop b k' = Inr v'"
  by (cases b) simp_all

lemma get_prop_Inl: "get_prop b k = Inl e \<longleftrightarrow> (b = JUndefined \<or> b = JNull) \<and> e = TypeError"
  by (cases b) auto

text \<open>
  A user message passes the check of the handlers exactly when it is a string that is not
  empty.
\<close>

lemma valid_userMessage_iff:
  "(truthy v \<and> typeof v = ascii ''string'') \<longleftrightarrow> (\<exists>s. v = JStr s \<and> s \<noteq> [])"
  by (cases v) (simp_all add: ascii_def)

text \<open>
  Claim C9.  The model-backed chat route requires \<open>currentState\<close>: for every request
  with a valid \<open>userMessage\<close> (a non-empty string) whose \<open>currentState\<close> is missing or
  falsy, it answers with status 400 and the message \<open>currentState is required\<close>, and it
  makes no call to the service, so the model is not invoked.
\<close>

theorem C9_currentState_required:
  assumes um: "get_prop b (ascii ''userMessage'') = Inr userMessage"
    and valid: "truthy userMessage" "typeof userMessage = ascii ''string''"
    and cs: "get_prop b (ascii ''currentState'') = Inr currentState"
    and falsy: "\<not> truthy currentState"
  shows "POST_chat svc (Inr b) =
           ([], \<lparr>status = 400, body = JObj [(ascii ''error'', JStr (ascii ''currentState is required''))]\<rparr>)"
proof -
  from get_prop_total [OF um] obtain mh where mh: "get_prop b (ascii ''messageHistory'') = Inr mh"
    by blast
  from um valid cs falsy mh
  have "chat_try svc (Inr b) =
      ([], NextResponse_json (error_body (JStr (ascii ''currentState is required''))) 400)"
    by (simp add: chat_try_def)
  then show ?thesis
    by (simp add: POST_chat_def NextResponse_json_def null_body_status_def error_body_def)
qed

theorem C9_currentState_required_witness:
  "POST_chat (\<lambda>c. Inr (JObj [])) (Inr (JObj [(ascii ''userMessage'', JStr (ascii ''hi''))])) =
     ([], \<lparr>status = 400, body = JObj [(ascii ''error'', JStr (ascii ''currentState is required''))]\<rparr>)
   \<and> POST_chat (\<lambda>c. Inr (JObj []))
       (Inr (JObj [(ascii ''userMessage'', JStr (ascii ''hi'')), (ascii ''currentState'', JNum 0)])) =
     ([], \<lparr>status = 400, body = JObj [(ascii ''error'', JStr (ascii ''currentState is required''))]\<rparr>)"
proof -
  have a: "get_prop (JObj [(ascii ''userMessage'', JStr (ascii ''hi''))]) (ascii ''userMessage'') = Inr (JStr (ascii ''hi''))"
    by (simp add: ascii_def)
  have b: "get_prop (JObj [(ascii ''userMessage'', JStr (ascii ''hi''))]) (ascii ''currentState'') = Inr JUndefined"
    by (simp add: ascii_def)
  have c: "get_prop (JObj [(ascii ''userMessage'', JStr (ascii ''hi'')), (ascii ''currentState'', JNum 0)])
      (ascii ''userMessage'') = Inr (JStr (ascii ''hi''))"
    by (simp add: ascii_def)
  have d: "get_prop (JObj [(ascii ''userMessage'', JStr (ascii ''hi'')), (ascii ''currentState'', JNum 0)])
      (ascii ''currentState'') = Inr (JNum 0)"
    by (simp add: ascii_def)
  have t: "truthy (JStr (ascii ''hi''))" "typeof (JStr (ascii ''hi'')) = ascii ''string''"
    by (simp_all add: ascii_def)
  have f1: "\<not> truthy JUndefined" by simp
  have f2: "\<not> truthy (JNum 0)" by (simp add: num_is_zero_def)
  show ?thesis
    using C9_currentState_required [OF a t b f1] C9_currentState_required [OF c t d f2]
    by simp
qed

text \<open>
  Claim C3, as stated, fails: a request whose body is the JSON value \<open>null\<close> has no
  \<open>userMessage\<close>, the destructuring of the body throws, and the handler's \<open>catch\<close>
  answers with status 500, not 400.  A body that is no JSON at all is answered in the
  same way.
\<close>

theorem C3_null_body_counterexample:
  "get_prop JNull (ascii ''userMessage'') = Inl TypeError \<and>
   POST_proxy offline_env (Inr JNull) =
     ([], \<lparr>status = 500, body = JObj [(ascii ''error'', JStr (ascii ''Internal server error''))]\<rparr>) \<and>
   POST_proxy offline_env (Inl SyntaxError) =
     ([], \<lparr>status = 500, body = JObj [(ascii ''error'', JStr (ascii ''Internal server error''))]\<rparr>)"
  by (simp add: POST_proxy_def proxy_try_def internal_server_error_def error_body_def)

text \<open>
  Claim C3, amended.  For every request to the proxy endpoint whose body parses to a JSON
  value other than \<open>null\<close>, and whose \<open>userMessage\<close> is missing, empty or not a string,
  the handler answers with status 400 and the message \<open>userMessage is required and must
  be a string\<close>, and sends nothing to the backend.  (The handler keeps no state.)
\<close>

theorem C3_invalid_userMessage:
  assumes um: "get_prop b (ascii ''userMessage'') = Inr userMessage"
    and invalid: "\<not> truthy userMessage \<or> typeof userMessage \<noteq> ascii ''string''"
  shows "POST_proxy env (Inr b) =
           ([], \<lparr>status = 400,
                 body = JObj [(ascii ''error'',
                    JStr (ascii ''userMessage is required and must be a string''))]\<rparr>)"
proof -
  from get_prop_total [OF um] obtain mh where mh: "get_prop b (ascii ''messageHistory'') = Inr mh"
    by blast
  from get_prop_total [OF um] obtain sid where sid: "get_prop b (ascii ''sessionId'') = Inr sid"
    by blast
  from um invalid mh sid
  have "proxy_try env (Inr b) =
      ([], NextResponse_json
          (error_body (JStr (ascii ''userMessage is required and must be a string''))) 400)"
    by (auto simp add: proxy_try_def)
  then show ?thesis
    by (simp add: POST_proxy_def NextResponse_json_def null_body_status_def error_body_def)
qed

theorem C3_invalid_userMessage_witness:
  "POST_proxy offline_env (Inr (JObj [(ascii ''sessionId'', JStr (ascii ''s1''))])) =
     ([], \<lparr>status = 400, body = JObj [(ascii ''error'',
                    JStr (ascii ''userMessage is required and must be a string''))]\<rparr>)
   \<and> POST_proxy offline_env (Inr (JObj [(ascii ''userMessage'', JStr [])])) =
     ([], \<lparr>status = 400, body = JObj [(ascii ''error'',
                    JStr (ascii ''userMessage is required and must be a string''))]\<rparr>)
   \<and> POST_proxy offline_env (Inr (JObj [(ascii ''userMessage'', JArr [JStr (ascii ''hi'')])])) =
     ([], \<lparr>status = 400, body = JObj [(ascii ''error'',
                    JStr (ascii ''userMessage is required and must be a string''))]\<rparr>)"
proof -
  have a: "get_prop (JObj [(ascii ''sessionId'', JStr (ascii ''s1''))]) (ascii ''userMessage'') = Inr JUndefined"
    by (simp add: ascii_def)
  have b: "get_prop (JObj [(ascii ''userMessage'', JStr [])]) (ascii ''userMessage'') = Inr (JStr [])"
    by (simp add: ascii_def)
  have c: "get_prop (JObj [(ascii ''userMessage'', JArr [JStr (ascii ''hi'')])]) (ascii ''userMessage'')
      = Inr (JArr [JStr (ascii ''hi'')])"
    by (simp add: ascii_def)
  have fa: "\<not> truthy JUndefined \<or> typeof JUndefined \<noteq> ascii ''string''" by simp
  have fb: "\<not> truthy (JStr []) \<or> typeof (JStr []) \<noteq> ascii ''string''" by simp
  have fc: "\<not> truthy (JArr [JStr (ascii ''hi'')]) \<or> typeof (JArr [JStr (ascii ''hi'')]) \<noteq> ascii ''string''"
    by (simp add: ascii_def)
  show ?thesis
    using C3_invalid_userMessage [OF a fa, of offline_env]
      C3_invalid_userMessage [OF b fb, of offline_env]
      C3_invalid_userMessage [OF c fc, of offline_env]
    by simp
qed

lemma detail_or_generic:
  "js_or (get_prop_opt (case br_json r of Inl e \<Rightarrow> JObj [] | Inr v \<Rightarrow> v) (ascii ''detail''))
         (JStr (ascii ''Python service error'')) =
   (case error_detail r of Some d \<Rightarrow> d | None \<Rightarrow> JStr (ascii ''Python service error''))"
proof (cases "br_json r")
  case (Inl e)
  then show ?thesis by (simp add: error_detail_def js_or_def)
next
  case (Inr v)
  then show ?thesis
    by (cases v) (simp_all add: error_detail_def js_or_def split: option.split)
qed

text \<open>A status that is not OK is accepted by \<open>NextResponse.json\<close> when it lies between 300
  and 599 and is not 304; any other is refused, and the refusal is thrown.\<close>

lemma NextResponse_json_not_ok:
  "\<not> (200 \<le> st \<and> st \<le> 299) \<Longrightarrow>
   NextResponse_json b st =
     (if 300 \<le> st \<and> st \<le> 599 \<and> st \<noteq> 304 then Inr \<lparr>status = st, body = b\<rparr>
      else if st = 304 then Inl TypeError else Inl RangeError)"
  by (auto simp add: NextResponse_json_def null_body_status_def)

lemma proxy_settle_failure:
  "\<not> br_ok r \<Longrightarrow>
   proxy_settle (Inr r) =
     (if 300 \<le> br_status r \<and> br_status r \<le> 599 \<and> br_status r \<noteq> 304 then
        Inr \<lparr>status = br_status r,
             body = JObj [(ascii ''error'',
                  case error_detail r of Some d \<Rightarrow> d | None \<Rightarrow> JStr (ascii ''Python service error''))]\<rparr>
      else if br_status r = 304 then Inl TypeError else Inl RangeError)"
proof -
  assume a: "\<not> br_ok r"
  then have "\<not> (200 \<le> br_status r \<and> br_status r \<le> 299)" by (simp add: br_ok_def)
  from NextResponse_json_not_ok [OF this] a show ?thesis
    by (simp add: proxy_settle_def detail_or_generic error_body_def)
qed

lemma proxy_try_fetched:
  assumes "fst (proxy_try env rq) = [req]"
  shows "snd (proxy_try env rq) = proxy_settle (fetch env req)"
proof (cases rq)
  case (Inl e)
  with assms show ?thesis by (simp add: proxy_try_def)
next
  case rq: (Inr b)
  show ?thesis
  proof (cases "get_prop b (ascii ''userMessage'')")
    case (Inl e)
    with assms rq show ?thesis by (simp add: proxy_try_def)
  next
    case um: (Inr userMessage)
    show ?thesis
    proof (cases "get_prop b (ascii ''messageHistory'')")
      case (Inl e)
      with assms rq um show ?thesis by (simp add: proxy_try_def)
    next
      case mh: (Inr messageHistory)
      show ?thesis
      proof (cases "get_prop b (ascii ''sessionId'')")
        case (Inl e)
        with assms rq um mh show ?thesis by (simp add: proxy_try_def)
      next
        case sid: (Inr sessionId)
        show ?thesis
        proof (cases "\<not> truthy userMessage \<or> typeof userMessage \<noteq> ascii ''string''")
          case True
          with assms rq um mh sid show ?thesis by (simp add: proxy_try_def)
        next
          case valid: False
          show ?thesis
          proof (cases "normalize_history messageHistory")
            case (Inl e)
            with assms rq um mh sid valid show ?thesis by (simp add: proxy_try_def)
          next
            case nh: (Inr normalizedHistory)
            show ?thesis
            proof (cases "new_URL env (strip_trailing_slash (PYTHON_SERVICE_URL env) @ ascii ''/api/chat'')")
              case (Inl e)
              with assms rq um mh sid valid nh show ?thesis by (simp add: proxy_try_def)
            next
              case url: (Inr url)
              with assms rq um mh sid valid nh show ?thesis
                by (auto simp add: proxy_try_def Let_def)
            qed
          qed
        qed
      qed
    qed
  qed
qed

lemma POST_proxy_split:
  "fst (POST_proxy env rq) = fst (proxy_try env rq) \<and>
   snd (POST_proxy env rq) =
     (case snd (proxy_try env rq) of Inl e \<Rightarrow> internal_server_error | Inr r \<Rightarrow> r)"
  by (cases "proxy_try env rq") (simp add: POST_proxy_def split: sum.splits)

lemma hello_try:
  "proxy_try (backend_env answer) (Inr hello_request) = ([hello_fetch], proxy_settle answer)"
  by (simp add: proxy_try_def hello_request_def hello_fetch_def backend_env_def ascii_def
      normalize_history_def js_or_def PYTHON_SERVICE_URL_def env_or_def strip_trailing_slash_def)

lemma hello_calls: "fst (POST_proxy (backend_env answer) (Inr hello_request)) = [hello_fetch]"
  by (simp add: POST_proxy_split hello_try)

text \<open>
  Claim C4, as stated, fails: the handler passes the backend's status to
  \<open>NextResponse.json\<close> inside its \<open>try\<close>, and for a status that this refuses the \<open>catch\<close>
  answers with 500.  A backend that answers 304, or 600, with an error detail gets neither
  its status nor its detail through.
\<close>

theorem C4_refused_status_counterexample:
  "fst (POST_proxy
      (backend_env (Inr \<lparr>br_status = 304, br_json = Inr (JObj [(ascii ''detail'', JStr (ascii ''bad input''))])\<rparr>))
      (Inr hello_request)) = [hello_fetch]
   \<and> \<not> br_ok \<lparr>br_status = 304, br_json = Inr (JObj [(ascii ''detail'', JStr (ascii ''bad input''))])\<rparr>
   \<and> snd (POST_proxy
      (backend_env (Inr \<lparr>br_status = 304, br_json = Inr (JObj [(ascii ''detail'', JStr (ascii ''bad input''))])\<rparr>))
      (Inr hello_request)) =
     \<lparr>status = 500, body = JObj [(ascii ''error'', JStr (ascii ''Internal server error''))]\<rparr>
   \<and> snd (POST_proxy
      (backend_env (Inr \<lparr>br_status = 600, br_json = Inr (JObj [(ascii ''detail'', JStr (ascii ''bad input''))])\<rparr>))
      (Inr hello_request)) =
     \<lparr>status = 500, body = JObj [(ascii ''error'', JStr (ascii ''Internal server error''))]\<rparr>"
  by (simp add: POST_proxy_split hello_try proxy_settle_failure br_ok_def
      internal_server_error_def error_body_def)

text \<open>
  Claim C4, amended.  Whenever the proxy endpoint has sent its request and the backend
  answers with a status that is not OK and that a response with a body may carry (300 to
  599, except 304), the response carries the backend's status code and, as its \<open>error\<close>,
  the backend's error detail; it carries the generic message \<open>Python service error\<close> when
  the error body has no detail (the body is no JSON, is no object, has no \<open>detail\<close>
  member, or has a falsy one).  For any other status that is not OK, and whenever an
  exception is thrown in the handler, the response is the generic \<open>Internal server
  error\<close> with status 500.
\<close>

theorem C4_backend_failure:
  "(fst (POST_proxy env rq) = [req] \<and> fetch env req = Inr r \<and> \<not> br_ok r \<longrightarrow>
      snd (POST_proxy env rq) =
        (if 300 \<le> br_status r \<and> br_status r \<le> 599 \<and> br_status r \<noteq> 304 then
           \<lparr>status = br_status r,
            body = JObj [(ascii ''error'',
                  case error_detail r of Some d \<Rightarrow> d | None \<Rightarrow> JStr (ascii ''Python service error''))]\<rparr>
         else
           \<lparr>status = 500, body = JObj [(ascii ''error'', JStr (ascii ''Internal server error''))]\<rparr>))
   \<and> (snd (proxy_try env rq) = Inl e \<longrightarrow>
      snd (POST_proxy env rq) =
        \<lparr>status = 500, body = JObj [(ascii ''error'', JStr (ascii ''Internal server error''))]\<rparr>)"
proof (intro conjI impI)
  assume a: "fst (POST_proxy env rq) = [req] \<and> fetch env req = Inr r \<and> \<not> br_ok r"
  then have "fst (proxy_try env rq) = [req]" by (simp add: POST_proxy_split)
  from proxy_try_fetched [OF this] a
  have "snd (proxy_try env rq) = proxy_settle (Inr r)" by simp
  with a show "snd (POST_proxy env rq) =
        (if 300 \<le> br_status r \<and> br_status r \<le> 599 \<and> br_status r \<noteq> 304 then
           \<lparr>status = br_status r,
            body = JObj [(ascii ''error'',
                  case error_detail r of Some d \<Rightarrow> d | None \<Rightarrow> JStr (ascii ''Python service error''))]\<rparr>
         else
           \<lparr>status = 500, body = JObj [(ascii ''error'', JStr (ascii ''Internal server error''))]\<rparr>)"
    by (simp add: POST_proxy_split proxy_settle_failure internal_server_error_def error_body_def)
next
  assume "snd (proxy_try env rq) = Inl e"
  then show "snd (POST_proxy env rq) =
        \<lparr>status = 500, body = JObj [(ascii ''error'', JStr (ascii ''Internal server error''))]\<rparr>"
    by (simp add: POST_proxy_split internal_server_error_def error_body_def)
qed

theorem C4_backend_failure_witness:
  "snd (POST_proxy
      (backend_env (Inr \<lparr>br_status = 422, br_json = Inr (JObj [(ascii ''detail'', JStr (ascii ''bad input''))])\<rparr>))
      (Inr hello_request)) =
     \<lparr>status = 422, body = JObj [(ascii ''error'', JStr (ascii ''bad input''))]\<rparr>
   \<and> snd (POST_proxy (backend_env (Inr \<lparr>br_status = 503, br_json = Inl SyntaxError\<rparr>)) (Inr hello_request)) =
     \<lparr>status = 503, body = JObj [(ascii ''error'', JStr (ascii ''Python service error''))]\<rparr>
   \<and> snd (POST_proxy (backend_env (Inr \<lparr>br_status = 304, br_json = Inl SyntaxError\<rparr>)) (Inr hello_request)) =
     \<lparr>status = 500, body = JObj [(ascii ''error'', JStr (ascii ''Internal server error''))]\<rparr>
   \<and> snd (POST_proxy (backend_env (Inl TypeError)) (Inr hello_request)) =
     \<lparr>status = 500, body = JObj [(ascii ''error'', JStr (ascii ''Internal server error''))]\<rparr>"
proof -
  let ?r1 = "\<lparr>br_status = 422, br_json = Inr (JObj [(ascii ''detail'', JStr (ascii ''bad input''))])\<rparr>"
  let ?r2 = "\<lparr>br_status = 503, br_json = Inl SyntaxError\<rparr>"
  let ?r3 = "\<lparr>br_status = 304, br_json = Inl SyntaxError\<rparr>"
  have d1: "error_detail ?r1 = Some (JStr (ascii ''bad input''))"
    by (simp add: error_detail_def ascii_def)
  have d2: "error_detail ?r2 = None"
    by (simp add: error_detail_def)
  have f1: "fetch (backend_env (Inr ?r1)) hello_fetch = Inr ?r1" "\<not> br_ok ?r1"
    by (simp_all add: backend_env_def br_ok_def)
  have f2: "fetch (backend_env (Inr ?r2)) hello_fetch = Inr ?r2" "\<not> br_ok ?r2"
    by (simp_all add: backend_env_def br_ok_def)
  have f3: "fetch (backend_env (Inr ?r3)) hello_fetch = Inr ?r3" "\<not> br_ok ?r3"
    by (simp_all add: backend_env_def br_ok_def)
  have t4: "snd (proxy_try (backend_env (Inl TypeError)) (Inr hello_request)) = Inl TypeError"
    by (simp add: hello_try proxy_settle_def)
  show ?thesis
    using C4_backend_failure [of "backend_env (Inr ?r1)" "Inr hello_request" hello_fetch ?r1 TypeError]
      C4_backend_failure [of "backend_env (Inr ?r2)" "Inr hello_request" hello_fetch ?r2 TypeError]
      C4_backend_failure [of "backend_env (Inr ?r3)" "Inr hello_request" hello_fetch ?r3 TypeError]
      C4_backend_failure [of "backend_env (Inl TypeError)" "Inr hello_request" hello_fetch ?r1 TypeError]
      hello_calls f1 f2 f3 t4 d1 d2
    by simp
qed

section \<open>The model-invocation service\<close>

lemma js_slice_last_n: "js_slice xs (- 10) = last_n 10 xs"
  by (simp add: js_slice_def last_n_def Let_def max_def nat_diff_distrib')

lemma length_last_n: "length (last_n n xs) = min n (length xs)"
  by (simp add: last_n_def)

lemma last_n_nth:
  "i < length (last_n n xs) \<Longrightarrow> last_n n xs ! i = xs ! (length xs - length (last_n n xs) + i)"
  by (simp add: last_n_def split: if_splits)

lemma last_n_suffix: "\<exists>ys. xs = ys @ last_n n xs"
  by (metis append_Nil append_take_drop_id last_n_def)

lemma processUserMessage_calls:
  "fst (processUserMessage env um st h) = fst (process_try env um st h)"
  by (cases "process_try env um st h") (simp add: processUserMessage_def split: sum.split)

lemma processUserMessage_result:
  "snd (processUserMessage env um st h) =
     (case snd (process_try env um st h) of Inl e \<Rightarrow> Inr (fallback st) | Inr r \<Rightarrow> Inr r)"
  by (cases "process_try env um st h") (simp add: processUserMessage_def split: sum.split)

lemma process_try_calls:
  "req \<in> set (fst (process_try env um st h)) \<Longrightarrow> gr_contents req = prompt env um st h"
  by (auto simp add: process_try_def Let_def split: option.splits if_splits)

lemma process_try_parsed:
  "snd (process_try env um st h) = Inr r \<Longrightarrow> \<exists>text. json_parse env text = Inr r"
  by (auto simp add: process_try_def Let_def split: option.splits if_splits sum.splits)

lemma js_join_Cons: "js_join sep (x # xs) = x @ concat (map (\<lambda>y. sep @ y) xs)"
  by (induction xs arbitrary: x) simp_all

lemma history_line_eq:
  "history_line m =
     (case role m of User \<Rightarrow> ascii ''USER'' | Agent \<Rightarrow> ascii ''AGENT'') @ ascii '': '' @ content m"
  by (cases "role m") (simp_all add: history_line_def)

lemma chatHistoryText_eq:
  "chatHistoryText h =
     (case last_n 10 h of
        [] \<Rightarrow> []
      | m # ms \<Rightarrow>
          ((case role m of User \<Rightarrow> ascii ''USER'' | Agent \<Rightarrow> ascii ''AGENT'') @ ascii '': '' @ content m)
          @ concat (map (\<lambda>x. ascii ''\<newline>'' @
              (case role x of User \<Rightarrow> ascii ''USER'' | Agent \<Rightarrow> ascii ''AGENT'') @ ascii '': '' @ content x) ms))"
proof (cases "last_n 10 h")
  case Nil
  then show ?thesis by (simp add: chatHistoryText_def js_slice_last_n)
next
  case (Cons m ms)
  then show ?thesis
    by (simp add: chatHistoryText_def js_slice_last_n js_join_Cons history_line_eq o_def)
qed

text \<open>
  Claim C5.  For every message history, the prompt that \<open>processUserMessage\<close> builds
  for the model is the fixed frame around three parts: the current state as serialised by
  \<open>JSON.stringify\<close>; the history, which is one line \<open>ROLE: content\<close> for each of the last
  ten history messages and for no other (for all of them when there are ten or fewer), in
  their original order, with a line feed between two lines; and the latest user input.
  Every request the function makes to the model carries this prompt.
\<close>

theorem C5_prompt_history:
  "prompt env userMessage currentState messageHistory =
     ascii ''\<newline>      Current Internal State:\<newline>      ''
     @ json_stringify env currentState
     @ ascii ''\<newline>\<newline>      Conversation History:\<newline>      ''
     @ (case last_n 10 messageHistory of
          [] \<Rightarrow> []
        | m # ms \<Rightarrow>
            ((case role m of User \<Rightarrow> ascii ''USER'' | Agent \<Rightarrow> ascii ''AGENT'') @ ascii '': '' @ content m)
            @ concat (map (\<lambda>x. ascii ''\<newline>'' @
                (case role x of User \<Rightarrow> ascii ''USER'' | Agent \<Rightarrow> ascii ''AGENT'') @ ascii '': '' @ content x) ms))
     @ ascii ''\<newline>\<newline>      User's Latest Input:\<newline>      \"''
     @ userMessage
     @ ascii ''\"\<newline>\<newline>      Based on the history and the latest input, return the JSON object with the natural language response and the updated state.\<newline>    ''
   \<and> length (last_n 10 messageHistory) = min 10 (length messageHistory)
   \<and> (length messageHistory \<le> 10 \<longrightarrow> last_n 10 messageHistory = messageHistory)
   \<and> (\<forall>i < length (last_n 10 messageHistory).
        last_n 10 messageHistory ! i =
        messageHistory ! (length messageHistory - length (last_n 10 messageHistory) + i))
   \<and> (\<forall>req \<in> set (fst (processUserMessage env userMessage currentState messageHistory)).
        gr_contents req = prompt env userMessage currentState messageHistory)"
proof (intro conjI)
  show "prompt env userMessage currentState messageHistory =
     ascii ''\<newline>      Current Internal State:\<newline>      ''
     @ json_stringify env currentState
     @ ascii ''\<newline>\<newline>      Conversation History:\<newline>      ''
     @ (case last_n 10 messageHistory of
          [] \<Rightarrow> []
        | m # ms \<Rightarrow>
            ((case role m of User \<Rightarrow> ascii ''USER'' | Agent \<Rightarrow> ascii ''AGENT'') @ ascii '': '' @ content m)
            @ concat (map (\<lambda>x. ascii ''\<newline>'' @
                (case role x of User \<Rightarrow> ascii ''USER'' | Agent \<Rightarrow> ascii ''AGENT'') @ ascii '': '' @ content x) ms))
     @ ascii ''\<newline>\<newline>      User's Latest Input:\<newline>      \"''
     @ userMessage
     @ ascii ''\"\<newline>\<newline>      Based on the history and the latest input, return the JSON object with the natural language response and the updated state.\<newline>    ''"
    by (simp only: prompt_def chatHistoryText_eq)
  show "length (last_n 10 messageHistory) = min 10 (length messageHistory)"
    by (rule length_last_n)
  show "length messageHistory \<le> 10 \<longrightarrow> last_n 10 messageHistory = messageHistory"
    by (simp add: last_n_def)
  show "\<forall>i < length (last_n 10 messageHistory).
        last_n 10 messageHistory ! i =
        messageHistory ! (length messageHistory - length (last_n 10 messageHistory) + i)"
    using last_n_nth by blast
  show "\<forall>req \<in> set (fst (processUserMessage env userMessage currentState messageHistory)).
        gr_contents req = prompt env userMessage currentState messageHistory"
    by (simp add: processUserMessage_calls process_try_calls)
qed

theorem C5_prompt_history_witness:
  "prompt echo_env (ascii ''hi'') INITIAL_STATE (map turn [0..<12]) =
     ascii ''\<newline>      Current Internal State:\<newline>      {}\<newline>\<newline>      Conversation History:\<newline>      USER: 2\<newline>AGENT: 3\<newline>USER: 4\<newline>AGENT: 5\<newline>USER: 6\<newline>AGENT: 7\<newline>USER: 8\<newline>AGENT: 9\<newline>USER: 10\<newline>AGENT: 11\<newline>\<newline>      User's Latest Input:\<newline>      \"hi\"\<newline>\<newline>      Based on the history and the latest input, return the JSON object with the natural language response and the updated state.\<newline>    ''
   \<and> prompt echo_env (ascii ''hi'') INITIAL_STATE (map turn [0..<2]) =
     ascii ''\<newline>      Current Internal State:\<newline>      {}\<newline>\<newline>      Conversation History:\<newline>      USER: 0\<newline>AGENT: 1\<newline>\<newline>      User's Latest Input:\<newline>      \"hi\"\<newline>\<newline>      Based on the history and the latest input, return the JSON object with the natural language response and the updated state.\<newline>    ''
   \<and> last_n 10 (map turn [0..<2]) = map turn [0..<2]
   \<and> map gr_contents (fst (processUserMessage echo_env (ascii ''hi'') INITIAL_STATE (map turn [0..<2]))) =
       [prompt echo_env (ascii ''hi'') INITIAL_STATE (map turn [0..<2])]"
proof -
  have up12: "[0..<12] = [0,1,2,3,4,5,6,7,8,9,10,11::nat]" by (simp add: upt_rec)
  have up2: "[0..<2] = [0,1::nat]" by (simp add: upt_rec)
  have a: "last_n 10 (map turn [0..<12]) = map turn [2,3,4,5,6,7,8,9,10,11]"
    by (simp add: last_n_def up12)
  have b: "last_n 10 (map turn [0..<2]) = map turn [0,1]"
    by (simp add: last_n_def up2)
  have len1: "length (fst (processUserMessage echo_env (ascii ''hi'') INITIAL_STATE (map turn [0..<2]))) = 1"
    by (simp add: processUserMessage_calls process_try_def echo_env_def env_or_def ascii_def Let_def)
  from len1 obtain r where r: "fst (processUserMessage echo_env (ascii ''hi'') INITIAL_STATE (map turn [0..<2])) = [r]"
    by (auto simp: length_Suc_conv)
  have p12: "prompt echo_env (ascii ''hi'') INITIAL_STATE (map turn [0..<12]) =
     ascii ''\<newline>      Current Internal State:\<newline>      {}\<newline>\<newline>      Conversation History:\<newline>      USER: 2\<newline>AGENT: 3\<newline>USER: 4\<newline>AGENT: 5\<newline>USER: 6\<newline>AGENT: 7\<newline>USER: 8\<newline>AGENT: 9\<newline>USER: 10\<newline>AGENT: 11\<newline>\<newline>      User's Latest Input:\<newline>      \"hi\"\<newline>\<newline>      Based on the history and the latest input, return the JSON object with the natural language response and the updated state.\<newline>    ''"
    using C5_prompt_history [of echo_env "ascii ''hi''" INITIAL_STATE "map turn [0..<12]", THEN conjunct1]
    by (simp add: a turn_def echo_env_def decimal.simps ascii_def)
  have p2: "prompt echo_env (ascii ''hi'') INITIAL_STATE (map turn [0..<2]) =
     ascii ''\<newline>      Current Internal State:\<newline>      {}\<newline>\<newline>      Conversation History:\<newline>      USER: 0\<newline>AGENT: 1\<newline>\<newline>      User's Latest Input:\<newline>      \"hi\"\<newline>\<newline>      Based on the history and the latest input, return the JSON object with the natural language response and the updated state.\<newline>    ''"
    using C5_prompt_history [of echo_env "ascii ''hi''" INITIAL_STATE "map turn [0..<2]", THEN conjunct1]
    by (simp add: b turn_def echo_env_def decimal.simps ascii_def)
  show ?thesis
    using C5_prompt_history [of echo_env "ascii ''hi''" INITIAL_STATE "map turn [0..<2]"] r p12 p2
    by (simp add: b up2)
qed

text \<open>
  What makes the body of the \<open>try\<close> throw: no API key; or, with a key, a rejected model
  call, a result without text, or a text that does not parse.
\<close>

lemma process_try_errors:
  "env_or (env_GEMINI_API_KEY env) (env_API_KEY env) = None \<or>
    env_or (env_GEMINI_API_KEY env) (env_API_KEY env) = Some [] \<Longrightarrow>
   \<exists>e. process_try env um st h = ([], Inl e)"
  "env_or (env_GEMINI_API_KEY env) (env_API_KEY env) = Some k \<Longrightarrow> k \<noteq> [] \<Longrightarrow>
   process_try env um st h =
     ([\<lparr>gr_apiKey = k, gr_model = ascii ''gemini-2.5-flash'', gr_contents = prompt env um st h\<rparr>],
      case generateContent env
            \<lparr>gr_apiKey = k, gr_model = ascii ''gemini-2.5-flash'', gr_contents = prompt env um st h\<rparr> of
        Inl e \<Rightarrow> Inl e
      | Inr None \<Rightarrow> Inl (Error (ascii ''No response from Gemini''))
      | Inr (Some text) \<Rightarrow>
          if text = [] then Inl (Error (ascii ''No response from Gemini''))
          else json_parse env text)"
  by (auto simp add: process_try_def Let_def)



section \<open>The chat page\<close>

lemma run_snoc: "run loaded src (evs @ [e]) = step loaded (run loaded src evs) e"
  by (simp add: run_def)

lemma handleSendMessage_states:
  "transferState (handleSendMessage a b s) = transferState s"
  "p \<in> set (inflight (handleSendMessage a b s)) \<Longrightarrow>
     p \<in> set (inflight s) \<or> p_transferState p = transferState s"
proof -
  show "transferState (handleSendMessage a b s) = transferState s"
    by (cases "js_trim (inputValue s) = [] \<or> isLoading s")
       (simp_all add: handleSendMessage_def Let_def)
  assume "p \<in> set (inflight (handleSendMessage a b s))"
  then show "p \<in> set (inflight s) \<or> p_transferState p = transferState s"
    by (cases "js_trim (inputValue s) = [] \<or> isLoading s")
       (auto simp add: handleSendMessage_def Let_def)
qed

lemma handleResponse_inflight:
  "inflight (handleResponse outcome a b p s) = inflight s"
  by (simp add: handleResponse_def Let_def split: sum.split prod.split)

lemma handleResponse_isLoading:
  "isLoading (handleResponse outcome a b p s) = False"
  by (simp add: handleResponse_def Let_def split: sum.split prod.split)

lemma handleResponse_transferState:
  "transferState (handleResponse outcome a b p s) =
     (case response_try outcome of
        Inl e \<Rightarrow> transferState s
      | Inr (t, d) \<Rightarrow> (case rd_updatedState d of Some u \<Rightarrow> u | None \<Rightarrow> p_transferState p))"
proof (cases "response_try outcome")
  case (Inl e)
  then show ?thesis by (simp add: handleResponse_def Let_def)
next
  case (Inr td)
  then show ?thesis by (cases td) (simp add: handleResponse_def Let_def)
qed

lemma one_request_initial: "one_request (initial loaded src)"
  by (simp add: one_request_def initial_def)

lemma one_request_step: "one_request s \<Longrightarrow> one_request (step loaded s e)"
proof (cases e)
  case (Change v)
  assume "one_request s"
  with Change show ?thesis by (simp add: one_request_def)
next
  case (Submit a b)
  assume "one_request s"
  with Submit show ?thesis
    by (auto simp add: one_request_def handleSendMessage_def Let_def)
next
  case (Settle i outcome a b)
  assume "one_request s"
  with Settle show ?thesis
    by (auto simp add: one_request_def handleResponse_inflight handleResponse_isLoading)
next
  case (Reset src)
  assume "one_request s"
  with Reset show ?thesis by (simp add: one_request_def handleReset_def)
qed

lemma one_request_run: "one_request (run loaded src evs)"
proof (induction evs rule: rev_induct)
  case Nil
  show ?case by (simp add: run_def one_request_initial)
next
  case (snoc e evs)
  then show ?case by (simp add: run_snoc one_request_step)
qed

text \<open>On its own render the handler is \<open>handleSendMessage\<close>, and a render with one event
  is a step of \<open>run\<close>.\<close>

lemma handleSendMessage_in_same: "handleSendMessage_in a b s s = handleSendMessage a b s"
  by (simp add: handleSendMessage_in_def handleSendMessage_def)

lemma step_in_same: "step_in loaded s s e = step loaded s e"
  by (cases e) (simp_all add: handleSendMessage_in_same)

lemma task_single: "task loaded s [e] = step loaded s e"
  by (simp add: task_def step_in_same)

lemma run_tasks_single: "run_tasks loaded src (map (\<lambda>e. [e]) evs) = run loaded src evs"
  by (simp add: run_tasks_def run_def foldl_map task_single)

lemma step_in_not_submit: "\<not> is_submit e \<Longrightarrow> step_in loaded r s e = step loaded s e"
  by (cases e) simp_all

lemma step_keeps_empty: "\<not> is_submit e \<Longrightarrow> inflight s = [] \<Longrightarrow> inflight (step loaded s e) = []"
  by (cases e) (simp_all add: handleReset_def)

lemma handleSendMessage_in_one_request:
  assumes "one_request s" and "\<not> isLoading r \<Longrightarrow> inflight s = []"
  shows "one_request (handleSendMessage_in a b r s)"
proof (cases "js_trim (inputValue r) = [] \<or> isLoading r")
  case True
  with assms(1) show ?thesis by (simp add: handleSendMessage_in_def)
next
  case False
  with assms(2) have "inflight s = []" by simp
  with False show ?thesis
    by (simp add: handleSendMessage_in_def one_request_def Let_def)
qed

text \<open>Within a render whose state at the start has at most one waiting call, at most one
  call waits after any events of which at most one is a submit.\<close>

lemma one_request_events:
  "one_request s \<Longrightarrow> length (filter is_submit evs) \<le> 1 \<Longrightarrow>
   (filter is_submit evs \<noteq> [] \<Longrightarrow> \<not> isLoading r \<Longrightarrow> inflight s = []) \<Longrightarrow>
   one_request (foldl (step_in loaded r) s evs)"
proof (induction evs arbitrary: s)
  case Nil
  then show ?case by simp
next
  case (Cons e evs)
  show ?case
  proof (cases "is_submit e")
    case True
    then obtain a b where e: "e = Submit a b" by (cases e) simp_all
    from True Cons.prems(2) have none: "filter is_submit evs = []" by simp
    from True Cons.prems(3) have "\<not> isLoading r \<Longrightarrow> inflight s = []" by simp
    with Cons.prems(1) have "one_request (handleSendMessage_in a b r s)"
      by (rule handleSendMessage_in_one_request)
    with none have "one_request (foldl (step_in loaded r) (handleSendMessage_in a b r s) evs)"
      by (intro Cons.IH) simp_all
    with e show ?thesis by simp
  next
    case False
    then have st: "step_in loaded r s e = step loaded s e" by (rule step_in_not_submit)
    from Cons.prems(1) have one: "one_request (step loaded s e)" by (rule one_request_step)
    from False Cons.prems(2) have le: "length (filter is_submit evs) \<le> 1" by simp
    have "inflight (step loaded s e) = []" if "filter is_submit evs \<noteq> []" "\<not> isLoading r"
    proof -
      from that False Cons.prems(3) have "inflight s = []" by simp
      with False show ?thesis by (rule step_keeps_empty)
    qed
    with one le have "one_request (foldl (step_in loaded r) (step loaded s e) evs)"
      by (intro Cons.IH) simp_all
    with st show ?thesis by simp
  qed
qed

lemma one_request_task:
  assumes "one_request s" and "length (filter is_submit evs) \<le> 1"
  shows "one_request (task loaded s evs)"
proof -
  from assms(1) have "\<not> isLoading s \<Longrightarrow> inflight s = []" by (simp add: one_request_def)
  with assms show ?thesis
    unfolding task_def by (intro one_request_events) simp_all
qed

lemma one_request_run_tasks:
  "\<forall>t \<in> set tasks. length (filter is_submit t) \<le> 1 \<Longrightarrow>
   one_request (run_tasks loaded src tasks)"
proof (induction tasks rule: rev_induct)
  case Nil
  show ?case by (simp add: run_tasks_def one_request_initial)
next
  case (snoc t tasks)
  then have "one_request (run_tasks loaded src tasks)" "length (filter is_submit t) \<le> 1"
    by simp_all
  then have "one_request (task loaded (run_tasks loaded src tasks) t)"
    by (rule one_request_task)
  then show ?case by (simp add: run_tasks_def)
qed

text \<open>
  Claim C8, as stated, fails: the guard of the send operation reads the loading flag of the
  render, and the flag that the first submit sets shows only on the next render.  After
  one submit a request is outstanding and the loading flag is set; a second submit handled
  on the same render passes the guard, and two requests are in flight.
\<close>

theorem C8_two_submits_one_render_counterexample:
  "length (inflight (run_tasks 0 uuid_source
      [[Change (ascii ''send 500 to Brazil'')], [Submit 1 1]])) = 1
   \<and> isLoading (run_tasks 0 uuid_source
      [[Change (ascii ''send 500 to Brazil'')], [Submit 1 1]])
   \<and> length (inflight (run_tasks 0 uuid_source double_submit)) = 2"
  by code_simp

text \<open>
  Claim C8, amended.  While the loading flag of the render is set, the send operation
  changes nothing: it appends no message and starts no request.  In every state the page
  reaches by events of which no two submits are handled on the same render, at most one
  request is in flight, and the loading flag is set exactly when one is; so it is when
  each event is handled on a render of its own.
\<close>

theorem C8_single_request_in_flight:
  "(isLoading r \<longrightarrow> handleSendMessage_in now_id now_ts r s = s)
   \<and> ((\<forall>t \<in> set tasks. length (filter is_submit t) \<le> 1) \<longrightarrow>
        length (inflight (run_tasks loaded src tasks)) \<le> 1 \<and>
        (isLoading (run_tasks loaded src tasks) \<longleftrightarrow> inflight (run_tasks loaded src tasks) \<noteq> []))
   \<and> length (inflight (run loaded src evs)) \<le> 1
   \<and> (isLoading (run loaded src evs) \<longleftrightarrow> inflight (run loaded src evs) \<noteq> [])"
proof (intro conjI impI)
  assume "isLoading r"
  then show "handleSendMessage_in now_id now_ts r s = s"
    by (simp add: handleSendMessage_in_def)
next
  assume "\<forall>t \<in> set tasks. length (filter is_submit t) \<le> 1"
  then have "one_request (run_tasks loaded src tasks)" by (rule one_request_run_tasks)
  then show "length (inflight (run_tasks loaded src tasks)) \<le> 1"
    and "isLoading (run_tasks loaded src tasks) \<longleftrightarrow> inflight (run_tasks loaded src tasks) \<noteq> []"
    by (simp_all add: one_request_def)
next
  from one_request_run [of loaded src evs]
  show "length (inflight (run loaded src evs)) \<le> 1"
    and "isLoading (run loaded src evs) \<longleftrightarrow> inflight (run loaded src evs) \<noteq> []"
    by (simp_all add: one_request_def)
qed

theorem C8_single_request_in_flight_witness:
  "isLoading (run 0 uuid_source typing)
   \<and> handleSendMessage_in 3 3 (run 0 uuid_source typing) (run 0 uuid_source typing) =
       run 0 uuid_source typing
   \<and> length (inflight (run 0 uuid_source typing)) = 1
   \<and> length (inflight (run_tasks 0 uuid_source (map (\<lambda>e. [e]) typing))) = 1
   \<and> map content (messages (run 0 uuid_source typing)) =
       [content (INITIAL_MESSAGE 0), ascii ''send 500 to Brazil'']"
proof -
  have l: "isLoading (run 0 uuid_source typing)"
    by code_simp
  have m: "map content (messages (run 0 uuid_source typing)) =
       [content (INITIAL_MESSAGE 0), ascii ''send 500 to Brazil'']"
    by code_simp
  have h: "\<forall>t \<in> set (map (\<lambda>e. [e]) typing). length (filter is_submit t) \<le> 1"
    by (simp add: typing_def)
  show ?thesis
    using C8_single_request_in_flight [of "run 0 uuid_source typing" 3 3 "run 0 uuid_source typing"
        "map (\<lambda>e. [e]) typing" 0 uuid_source typing] l m h
    by (auto simp add: le_Suc_eq run_tasks_single)
qed









text \<open>
  When the rest of \<open>handleSendMessage\<close> runs, an error leaves the transfer state as it is
  and appends the error message; an accepted reply without a state sets the transfer
  state to the one the waiting call holds.
\<close>

lemma handleResponse_error:
  "response_try outcome = Inl e \<Longrightarrow>
   transferState (handleResponse outcome a b p s) = transferState s \<and>
   messages (handleResponse outcome a b p s) = messages s @
     [\<lparr>id_m = decimal (a + 1), role = Agent,
       content = ascii ''I'm having trouble connecting right now. Please try again in a moment.'',
       timestamp = b, promo_m = None\<rparr>]"
  by (simp add: handleResponse_def Let_def)

lemma reply_error_keeps_state:
  assumes "response_try outcome = Inl err"
  shows "transferState (step loaded s (Settle i outcome a b)) = transferState s"
  using assms by (simp add: handleResponse_transferState)

lemma handleResponse_no_state:
  "response_try outcome = Inr (t, d) \<Longrightarrow> rd_updatedState d = None \<Longrightarrow>
   transferState (handleResponse outcome a b p s) = p_transferState p"
  by (simp add: handleResponse_def Let_def)

lemma handleResponse_state:
  "response_try outcome = Inr (t, d) \<Longrightarrow> rd_updatedState d = Some u \<Longrightarrow>
   transferState (handleResponse outcome a b p s) = u"
  by (simp add: handleResponse_def Let_def)

lemma captured_step:
  assumes one: "one_request s" and cap: "captured_current s" and nr: "\<not> is_reset e"
  shows "captured_current (step loaded s e)"
proof (cases e)
  case (Change v)
  with cap show ?thesis by (simp add: captured_current_def)
next
  case (Submit a b)
  have "p_transferState p = transferState s"
    if "p \<in> set (inflight (handleSendMessage a b s))" for p
    using handleSendMessage_states(2) [OF that] cap by (auto simp add: captured_current_def)
  with Submit show ?thesis
    by (simp add: captured_current_def handleSendMessage_states(1))
next
  case (Reset src)
  with nr show ?thesis by simp
next
  case (Settle i outcome a b)
  show ?thesis
  proof (cases "i < length (inflight s)")
    case False
    with Settle cap show ?thesis by simp
  next
    case True
    with one have "i = 0" "length (inflight s) = 1" by (simp_all add: one_request_def)
    then have "take i (inflight s) @ drop (Suc i) (inflight s) = []" by simp
    moreover have "step loaded s e =
        (handleResponse outcome a b (inflight s ! i) s)
          \<lparr>inflight := take i (inflight s) @ drop (Suc i) (inflight s)\<rparr>"
      using Settle True by simp
    ultimately have "inflight (step loaded s e) = []" by simp
    then show ?thesis by (simp add: captured_current_def)
  qed
qed

lemma captured_run:
  "\<forall>e \<in> set evs. \<not> is_reset e \<Longrightarrow>
   one_request (run loaded src evs) \<and> captured_current (run loaded src evs)"
proof (induction evs rule: rev_induct)
  case Nil
  show ?case by (simp add: run_def initial_def one_request_def captured_current_def)
next
  case (snoc e evs)
  then have "one_request (run loaded src evs)" "captured_current (run loaded src evs)" "\<not> is_reset e"
    by simp_all
  then show ?case
    by (simp add: run_snoc one_request_step captured_step)
qed

text \<open>
  Without a reset, an accepted reply that carries no state leaves the state as it is.
\<close>

lemma reply_without_state_no_reset:
  assumes "\<forall>e \<in> set evs. \<not> is_reset e"
    and "response_try outcome = Inr (t, d)" and "rd_updatedState d = None"
  shows "transferState (step loaded (run loaded src evs) (Settle i outcome a b)) =
         transferState (run loaded src evs)"
proof (cases "i < length (inflight (run loaded src evs))")
  case False
  then show ?thesis by simp
next
  case True
  from captured_run [OF assms(1)] have "captured_current (run loaded src evs)" by simp
  with True have "p_transferState (inflight (run loaded src evs) ! i) = transferState (run loaded src evs)"
    by (simp add: captured_current_def)
  with True assms(2,3) show ?thesis
    by (simp add: handleResponse_transferState)
qed

text \<open>
  Claim C10 fails on the code.  The reply is read against the \<open>transferState\<close> of the
  render that sent the request.  After a first exchange the state holds two fields; a
  second message is sent; the reset button is pressed while its request is outstanding,
  and the state is the initial one; then the reply arrives, accepted and without an
  \<open>updatedState\<close>, and the transfer state is not left as it was: it goes back to the
  state from before the reset.
\<close>

theorem C10_late_reply_after_reset:
  "transferState (run 0 uuid_source reset_while_waiting) = INITIAL_STATE
   \<and> carried_state late_reply = None
   \<and> transferState (run 0 uuid_source (reset_while_waiting @ [late_reply])) = brazil_state
   \<and> brazil_state \<noteq> INITIAL_STATE"
  by code_simp

text \<open>
  Claim C1, as stated, fails: the page takes the state of a reply as it comes.  A reply
  that sets the completion flag on a state without fields leaves the page in a state
  where the flag is set and all four fields are null.
\<close>

theorem C1_flag_without_fields_counterexample:
  "transferState (run 0 uuid_source flagged_exchange) = flagged_empty
   \<and> isComplete flagged_empty \<and> destinationCountry flagged_empty = None
   \<and> \<not> completion_consistent (transferState (run 0 uuid_source flagged_exchange))"
  by code_simp

lemma consistent_initial: "states_consistent (initial loaded src)"
  by (simp add: states_consistent_def initial_def INITIAL_STATE_def completion_consistent_def)

lemma set_remove_nth: "set (take i xs @ drop (Suc i) xs) \<subseteq> set xs"
  by (auto dest: in_set_takeD in_set_dropD)

lemma response_try_carried:
  "response_try outcome = Inr (t, d) \<Longrightarrow>
   carried_state (Settle i outcome a b) = rd_updatedState d"
  by (cases outcome rule: fetch_outcome.exhaust)
     (auto simp add: response_try_def split: if_splits reply_body.splits option.splits)

lemma consistent_step:
  assumes inv: "states_consistent s"
    and ok: "\<And>u. carried_state e = Some u \<Longrightarrow> completion_consistent u"
  shows "states_consistent (step loaded s e)"
proof (cases e)
  case (Change v)
  with inv show ?thesis by (simp add: states_consistent_def)
next
  case (Submit a b)
  have "completion_consistent (p_transferState p)"
    if "p \<in> set (inflight (handleSendMessage a b s))" for p
    using handleSendMessage_states(2) [OF that] inv by (auto simp add: states_consistent_def)
  with inv Submit show ?thesis
    by (simp add: states_consistent_def handleSendMessage_states(1))
next
  case (Reset src)
  with inv show ?thesis
    by (simp add: states_consistent_def handleReset_def INITIAL_STATE_def completion_consistent_def)
next
  case (Settle i outcome a b)
  show ?thesis
  proof (cases "i < length (inflight s)")
    case False
    with Settle inv show ?thesis by simp
  next
    case True
    let ?p = "inflight s ! i"
    from True have "?p \<in> set (inflight s)" by simp
    with inv have p: "completion_consistent (p_transferState ?p)"
      by (simp add: states_consistent_def)
    from inv have cur: "completion_consistent (transferState s)"
      by (simp add: states_consistent_def)
    have ts: "completion_consistent (transferState (handleResponse outcome a b ?p s))"
    proof (cases "response_try outcome")
      case (Inl err)
      with cur show ?thesis by (simp add: handleResponse_transferState)
    next
      case (Inr td)
      obtain t d where td: "td = (t, d)" by (cases td)
      show ?thesis
      proof (cases "rd_updatedState d")
        case None
        with Inr td p show ?thesis by (simp add: handleResponse_transferState)
      next
        case (Some u)
        with response_try_carried [of outcome t d i a b] Inr td Settle
        have "carried_state e = Some u" by simp
        then have "completion_consistent u" by (rule ok)
        with Inr td Some show ?thesis by (simp add: handleResponse_transferState)
      qed
    qed
    have rest: "completion_consistent (p_transferState q)"
      if "q \<in> set (take i (inflight s) @ drop (Suc i) (inflight s))" for q
    proof -
      from that set_remove_nth [of i "inflight s"] have "q \<in> set (inflight s)" by blast
      with inv show ?thesis by (simp add: states_consistent_def)
    qed
    have "step loaded s e =
        (handleResponse outcome a b ?p s)\<lparr>inflight := take i (inflight s) @ drop (Suc i) (inflight s)\<rparr>"
      using Settle True by simp
    with ts rest show ?thesis
      by (simp add: states_consistent_def)
  qed
qed

lemma consistent_run:
  "(\<forall>e \<in> set evs. \<forall>u. carried_state e = Some u \<longrightarrow> completion_consistent u) \<Longrightarrow>
   states_consistent (run loaded src evs)"
proof (induction evs rule: rev_induct)
  case Nil
  show ?case by (simp add: run_def consistent_initial)
next
  case (snoc e evs)
  then have "states_consistent (run loaded src evs)" by simp
  moreover from snoc.prems have "\<And>u. carried_state e = Some u \<Longrightarrow> completion_consistent u"
    by simp
  ultimately show ?case
    by (simp add: run_snoc consistent_step)
qed

text \<open>
  Claim C1, amended.  The completion flag is true if and only if all four fields are
  non-null and the beneficiary name has at least two white-space separated tokens: in the
  initial state; in every state the page reaches, provided that it holds of every
  \<open>updatedState\<close> the replies carry; and in the state the service returns, provided that it
  holds of the current state and of every state the model's text parses to.  The code
  itself never computes or checks the flag.
\<close>

theorem C1_flag_taken_from_replies:
  "completion_consistent INITIAL_STATE
   \<and> ((\<forall>e \<in> set evs. \<forall>u. carried_state e = Some u \<longrightarrow> completion_consistent u) \<longrightarrow>
        completion_consistent (transferState (run loaded src evs)))
   \<and> (completion_consistent currentState \<and>
        (\<forall>text r. json_parse env text = Inr r \<longrightarrow> completion_consistent (updatedState r)) \<longrightarrow>
        (\<forall>r. snd (processUserMessage env userMessage currentState messageHistory) = Inr r \<longrightarrow>
             completion_consistent (updatedState r)))"
proof (intro conjI impI allI)
  show "completion_consistent INITIAL_STATE"
    by (simp add: INITIAL_STATE_def completion_consistent_def)
next
  assume "\<forall>e \<in> set evs. \<forall>u. carried_state e = Some u \<longrightarrow> completion_consistent u"
  then have "states_consistent (run loaded src evs)" by (rule consistent_run)
  then show "completion_consistent (transferState (run loaded src evs))"
    by (simp add: states_consistent_def)
next
  fix r
  assume a: "completion_consistent currentState \<and>
        (\<forall>text r. json_parse env text = Inr r \<longrightarrow> completion_consistent (updatedState r))"
    and r: "snd (processUserMessage env userMessage currentState messageHistory) = Inr r"
  show "completion_consistent (updatedState r)"
  proof (cases "snd (process_try env userMessage currentState messageHistory)")
    case (Inl e)
    with r have "r = fallback currentState" by (simp add: processUserMessage_result)
    with a show ?thesis by (simp add: fallback_def)
  next
    case (Inr r')
    with r have "r = r'" by (simp add: processUserMessage_result)
    with process_try_parsed [OF Inr] a show ?thesis by blast
  qed
qed

theorem C1_flag_taken_from_replies_witness:
  "completion_consistent (transferState (run 0 uuid_source first_exchange))
   \<and> transferState (run 0 uuid_source first_exchange) = brazil_state
   \<and> snd (processUserMessage
        (parsing_env \<lparr>agentResponse = ascii ''Who receives it?'', updatedState = brazil_state, promo_r = None\<rparr>)
        (ascii ''send 500 to Brazil'') INITIAL_STATE []) =
       Inr \<lparr>agentResponse = ascii ''Who receives it?'', updatedState = brazil_state, promo_r = None\<rparr>
   \<and> completion_consistent brazil_state"
proof -
  let ?reply = "\<lparr>agentResponse = ascii ''Who receives it?'', updatedState = brazil_state, promo_r = None\<rparr>"
  have b: "completion_consistent brazil_state"
    by (simp add: completion_consistent_def brazil_state_def)
  have h1: "\<forall>e \<in> set first_exchange. \<forall>u. carried_state e = Some u \<longrightarrow> completion_consistent u"
    using b by (simp add: first_exchange_def)
  have h2: "completion_consistent INITIAL_STATE \<and>
        (\<forall>text r. json_parse (parsing_env ?reply) text = Inr r \<longrightarrow> completion_consistent (updatedState r))"
    using b by (auto simp add: parsing_env_def INITIAL_STATE_def completion_consistent_def)
  have ev: "transferState (run 0 uuid_source first_exchange) = brazil_state"
    by code_simp
  have sv: "snd (processUserMessage (parsing_env ?reply) (ascii ''send 500 to Brazil'') INITIAL_STATE []) = Inr ?reply"
    by (simp add: processUserMessage_result process_try_def parsing_env_def env_or_def ascii_def Let_def)
  show ?thesis
    using C1_flag_taken_from_replies [of first_exchange 0 uuid_source INITIAL_STATE "parsing_env ?reply"
        "ascii ''send 500 to Brazil''" "[]"] h1 h2 ev sv b
    by simp
qed

end
